theory Spec2Isabelle
  imports Main
begin

section \<open>Data model of the concealment engine (conceal.ts)\<close>

text \<open>
  Offsets are JavaScript numbers holding non-negative integers (positions in the
  document, or indices into the text of one equation): they are modelled as \<open>nat\<close>.
  Texts are \<open>string\<close>; one element stands for one code unit of the JavaScript string.
  The field names \<open>end\<close>, \<open>class\<close> and \<open>from\<close> of the source are written \<open>end'\<close>,
  \<open>class'\<close> and \<open>from'\<close>. An optional field is an \<open>option\<close>.
\<close>

record Replacement =
  start :: nat
  end' :: nat
  replacement :: string
  class' :: "string option"
  elementType :: "string option"

text \<open>
  \<open>ConcealSpec\<close> is either one object or an array of \<open>ConcealSpec\<close>. The source's type
  asks for a non-empty array; no function of the engine tests it.
\<close>

datatype ConcealSpec = Single Replacement | Group "ConcealSpec list"

datatype CursorPosType = Within | Apart | Edge

record Concealment =
  spec :: ConcealSpec
  cursorPosType :: CursorPosType
  enable :: bool

datatype ConcealAction = Conceal | Reveal | Delay

text \<open>The parts of the host's selection that the engine reads.\<close>

record SelectionRange =
  from' :: nat
  to :: nat

record EditorSelection =
  ranges :: "SelectionRange list"

section \<open>Iterating over a ConcealSpec\<close>

text \<open>
  \<open>iterConcealSpec spec f\<close> calls \<open>f\<close> on each individual object and stops as soon as
  \<open>f\<close> returns \<open>false\<close>. The callbacks of the engine assign to a variable of the
  enclosing function, so a callback is a function from the individual object and the
  variable's value to the flag and the new value. The flag is \<open>False\<close> when the callback
  returned \<open>false\<close> and \<open>True\<close> when it returned nothing.
\<close>

fun iterConcealSpec :: "ConcealSpec \<Rightarrow> (Replacement \<Rightarrow> 's \<Rightarrow> bool \<times> 's) \<Rightarrow> 's \<Rightarrow> bool \<times> 's"
  and iterSubSpecs :: "ConcealSpec list \<Rightarrow> (Replacement \<Rightarrow> 's \<Rightarrow> bool \<times> 's) \<Rightarrow> 's \<Rightarrow> bool \<times> 's"
where
  "iterConcealSpec (Single r) f s = f r s"
| "iterConcealSpec (Group subs) f s = iterSubSpecs subs f s"
| "iterSubSpecs [] f s = (True, s)"
| "iterSubSpecs (subSpec # rest) f s =
     (case iterConcealSpec subSpec f s of
        (b, s') \<Rightarrow> if \<not> b then (False, s') else iterSubSpecs rest f s')"

text \<open>The individual objects of a ConcealSpec, in the order of the iteration.\<close>

fun members :: "ConcealSpec \<Rightarrow> Replacement list" where
  "members (Single r) = [r]"
| "members (Group subs) = concat (map members subs)"

section \<open>The cursor classifier\<close>

definition overlapRangeFrom :: "SelectionRange \<Rightarrow> Replacement \<Rightarrow> nat" where
  "overlapRangeFrom rng singleSpec = max (from' rng) (start singleSpec)"

definition overlapRangeTo :: "SelectionRange \<Rightarrow> Replacement \<Rightarrow> nat" where
  "overlapRangeTo rng singleSpec = min (to rng) (end' singleSpec)"

text \<open>The condition of the first \<open>if\<close> of the callback.\<close>

definition touchesBoundary :: "SelectionRange \<Rightarrow> Replacement \<Rightarrow> bool" where
  "touchesBoundary rng singleSpec =
     (overlapRangeFrom rng singleSpec = overlapRangeTo rng singleSpec \<and>
      (overlapRangeFrom rng singleSpec = start singleSpec \<or>
       overlapRangeFrom rng singleSpec = end' singleSpec))"

text \<open>The callback passed to \<open>iterConcealSpec\<close> for one range of the selection.\<close>

definition classifyStep :: "SelectionRange \<Rightarrow> Replacement \<Rightarrow> CursorPosType \<Rightarrow> bool \<times> CursorPosType" where
  "classifyStep rng singleSpec cur =
     (if touchesBoundary rng singleSpec then (True, Edge)
      else if overlapRangeFrom rng singleSpec \<le> overlapRangeTo rng singleSpec
           then (False, Within)
      else (True, cur))"

fun classifyRanges :: "SelectionRange list \<Rightarrow> ConcealSpec \<Rightarrow> CursorPosType \<Rightarrow> CursorPosType" where
  "classifyRanges [] concealSpec cur = cur"
| "classifyRanges (rng # rest) concealSpec cur =
     (let cur' = snd (iterConcealSpec concealSpec (classifyStep rng) cur)
      in if cur' = Within then Within else classifyRanges rest concealSpec cur')"

definition determineCursorPosType :: "EditorSelection \<Rightarrow> ConcealSpec \<Rightarrow> CursorPosType" where
  "determineCursorPosType sel concealSpec = classifyRanges (ranges sel) concealSpec Apart"

section \<open>The action table\<close>

text \<open>
  \<open>oldCursor\<close> is \<open>None\<close> when the caller found no concealment of the old state at the
  same position (\<open>null\<close> or \<open>undefined\<close> in the source, both falsy).
\<close>

definition determineAction :: "CursorPosType option \<Rightarrow> CursorPosType \<Rightarrow> bool \<Rightarrow> ConcealAction" where
  "determineAction oldCursor newCursor mousedown =
     (if mousedown then Conceal
      else if newCursor = Apart then Conceal
      else if newCursor = Within then Reveal
      else if oldCursor = None \<or> oldCursor = Some Within then Reveal
      else Delay)"

section \<open>Identity of a ConcealSpec across an edit\<close>

text \<open>
  \<open>mapPos\<close> is \<open>update.changes.mapPos\<close> of the host: the position after the edit of a
  position before it, under the association given as second argument (1 or -1).
\<close>

text \<open>
  The loop over the indices of \<open>oldConceal\<close> runs only when both arrays have the same
  length, so the last two equations of \<open>atSamePosAfterEach\<close> are reached with both
  arrays exhausted only.
\<close>

fun atSamePosAfter :: "(nat \<Rightarrow> int \<Rightarrow> nat) \<Rightarrow> ConcealSpec \<Rightarrow> ConcealSpec \<Rightarrow> bool"
  and atSamePosAfterEach :: "(nat \<Rightarrow> int \<Rightarrow> nat) \<Rightarrow> ConcealSpec list \<Rightarrow> ConcealSpec list \<Rightarrow> bool"
where
  "atSamePosAfter mapPos (Single oldConceal) (Single newConceal) =
     (mapPos (start oldConceal) 1 = start newConceal \<and>
      mapPos (end' oldConceal) (- 1) = end' newConceal)"
| "atSamePosAfter mapPos (Group olds) (Group news) =
     (if length olds \<noteq> length news then False else atSamePosAfterEach mapPos olds news)"
| "atSamePosAfter mapPos (Single oldConceal) (Group news) = False"
| "atSamePosAfter mapPos (Group olds) (Single newConceal) = False"
| "atSamePosAfterEach mapPos (old # olds) (new # news) =
     (if \<not> atSamePosAfter mapPos old new then False else atSamePosAfterEach mapPos olds news)"
| "atSamePosAfterEach mapPos [] news = True"
| "atSamePosAfterEach mapPos (old # olds) [] = True"

text \<open>
  The two conjuncts of the specification of identity, written from its words: the same
  shape (both single, or both groups of the same number of members, corresponding members
  of the same shape in turn), and the boundaries of an old Replacement, mapped through the
  edit with the start sticking to the right and the end to the left, equal to the boundaries
  of the new one.
\<close>

fun sameShape :: "ConcealSpec \<Rightarrow> ConcealSpec \<Rightarrow> bool" where
  "sameShape (Single a) (Single b) = True"
| "sameShape (Group as) (Group bs) = (length as = length bs \<and> list_all2 sameShape as bs)"
| "sameShape (Single a) (Group bs) = False"
| "sameShape (Group as) (Single b) = False"

definition boundariesMapped :: "(nat \<Rightarrow> int \<Rightarrow> nat) \<Rightarrow> Replacement \<Rightarrow> Replacement \<Rightarrow> bool" where
  "boundariesMapped mapPos a b =
     (mapPos (start a) 1 = start b \<and> mapPos (end' a) (- 1) = end' b)"

text \<open>
  The second \<open>if\<close> of the classifier's callback is reached when the first one failed:
  the overlap interval is not a single point on a boundary of the Replacement, and its
  lower end is at most its upper end.
\<close>

definition withinOverlap :: "SelectionRange \<Rightarrow> Replacement \<Rightarrow> bool" where
  "withinOverlap rng singleSpec =
     (\<not> touchesBoundary rng singleSpec \<and>
      overlapRangeFrom rng singleSpec \<le> overlapRangeTo rng singleSpec)"

section \<open>The update listener and the delayed reveal\<close>

text \<open>A timer handle of the host (\<open>setTimeout\<close>) is a number.\<close>

record ConcealState =
  concealments :: "Concealment list"
  revealTimeout :: "nat option"

text \<open>
  What the listener reads from a \<open>ViewUpdate\<close> of the host: the three change flags,
  the value of the state field in the start state of the update
  (\<open>update.startState.field(thisField)\<close>), \<open>update.changes.mapPos\<close>,
  \<open>update.state.selection\<close>, the \<open>mousedown\<close> flag of the live preview plugin (absent
  counts as false, as in \<open>determineAction\<close>), and the result of the scanner
  \<open>conceal(update.view)\<close> on the view.
\<close>

record ViewUpdate =
  docChanged :: bool
  viewportChanged :: bool
  selectionSet :: bool
  startState_field :: ConcealState
  changes_mapPos :: "nat \<Rightarrow> int \<Rightarrow> nat"
  state_selection :: EditorSelection
  view_mousedown :: bool
  view_conceal :: "ConcealSpec list"

text \<open>The body of the loop over the new conceal specs: the concealment and its action.\<close>

definition reconcileOne :: "ViewUpdate \<Rightarrow> ConcealState \<Rightarrow> ConcealSpec \<Rightarrow> Concealment \<times> ConcealAction" where
  "reconcileOne update oldState concealSpec =
     (let cursorPosType = determineCursorPosType (state_selection update) concealSpec;
          oldConceal = find (\<lambda>old. atSamePosAfter (changes_mapPos update) (spec old) concealSpec)
                         (concealments oldState);
          concealAction = determineAction (map_option Concealment.cursorPosType oldConceal)
                            cursorPosType (view_mousedown update)
      in (\<lparr>spec = concealSpec, cursorPosType = cursorPosType,
           enable = (concealAction \<noteq> Reveal)\<rparr>, concealAction))"

text \<open>
  The callback given to \<open>setTimeout\<close> closes over the arrays \<open>concealments\<close> and
  \<open>delayedConcealments\<close>, which share their objects: an object of \<open>concealments\<close> is in
  \<open>delayedConcealments\<close> exactly when its action was \<open>delay\<close>. The closure is kept as
  the list of the concealments with their actions. When it runs, it sets \<open>enable\<close> to
  false in the delayed objects and dispatches the array \<open>concealments\<close>, with no timer.
\<close>

definition revealDelayed :: "(Concealment \<times> ConcealAction) list \<Rightarrow> Concealment list" where
  "revealDelayed captured =
     map (\<lambda>(concealment, concealAction).
            if concealAction = Delay then concealment\<lparr>enable := False\<rparr> else concealment)
         captured"

text \<open>
  The editor view as the engine sees it: the current value of \<open>concealStateField\<close>, the
  timers of the host that are scheduled and have neither fired nor been cleared, each
  with its callback's closure, and the next handle \<open>setTimeout\<close> will return.
\<close>

record View =
  stateField :: ConcealState
  timers :: "nat \<rightharpoonup> (Concealment \<times> ConcealAction) list"
  nextTimer :: nat

definition create :: View where
  "create = \<lparr>stateField = \<lparr>concealments = [], revealTimeout = None\<rparr>,
             timers = Map.empty, nextTimer = 0\<rparr>"

definition clearTimeout :: "nat option \<Rightarrow> (nat \<rightharpoonup> 'a) \<Rightarrow> (nat \<rightharpoonup> 'a)" where
  "clearTimeout handle ts = (case handle of None \<Rightarrow> ts | Some t \<Rightarrow> ts(t := None))"

text \<open>
  The update listener. The old state is the field's value in the start state of the
  update, not the field's current value: the two are the same on an update that carries
  no \<open>updateConcealEffect\<close>, and differ on the update that a dispatch of the engine
  itself causes, whose start state is the state before that dispatch. The dispatch of
  \<open>updateConcealEffect\<close> makes the field's \<open>update\<close> return the dispatched value.
\<close>

definition updateListener :: "ViewUpdate \<Rightarrow> View \<Rightarrow> View" where
  "updateListener update view =
     (if \<not> (docChanged update \<or> viewportChanged update \<or> selectionSet update) then view
      else
        let oldState = startState_field update;
            cleared = clearTimeout (revealTimeout oldState) (timers view);
            results = map (reconcileOne update oldState) (view_conceal update);
            delayedConcealments = filter (\<lambda>(concealment, concealAction). concealAction = Delay) results
        in if length delayedConcealments > 0
           then \<lparr>stateField = \<lparr>concealments = map fst results,
                                revealTimeout = Some (nextTimer view)\<rparr>,
                 timers = cleared(nextTimer view \<mapsto> results),
                 nextTimer = Suc (nextTimer view)\<rparr>
           else \<lparr>stateField = \<lparr>concealments = map fst results, revealTimeout = None\<rparr>,
                 timers = cleared,
                 nextTimer = nextTimer view\<rparr>)"

text \<open>A timer of the host fires once, and only if it is still scheduled.\<close>

definition timerFires :: "nat \<Rightarrow> View \<Rightarrow> View" where
  "timerFires t view =
     (case timers view t of
        None \<Rightarrow> view
      | Some captured \<Rightarrow>
          view\<lparr>stateField := \<lparr>concealments = revealDelayed captured, revealTimeout = None\<rparr>,
               timers := (timers view)(t := None)\<rparr>)"

text \<open>
  The events of one view, in the order in which the host delivers them: a view update
  reaching the listener, or a timer firing.
\<close>

datatype Event = Update ViewUpdate | Timeout nat

fun step :: "View \<Rightarrow> Event \<Rightarrow> View" where
  "step view (Update update) = updateListener update view"
| "step view (Timeout t) = timerFires t view"

definition run :: "View \<Rightarrow> Event list \<Rightarrow> View" where
  "run view events = foldl step view events"

section \<open>The scanner (conceal-fns) and the bracket matcher\<close>

subsection \<open>The string operations of the host language\<close>

text \<open>
  \<open>substring\<close> swaps its arguments when the first is the larger; \<open>slice\<close> is empty
  then; \<open>charAt\<close> is the empty string outside the text. All of them cut at the end of
  the text.
\<close>

definition substring :: "string \<Rightarrow> nat \<Rightarrow> nat \<Rightarrow> string" where
  "substring s a b = take (max a b - min a b) (drop (min a b) s)"

definition slice :: "string \<Rightarrow> nat \<Rightarrow> nat \<Rightarrow> string" where
  "slice s a b = take (b - a) (drop a s)"

definition charAt :: "string \<Rightarrow> nat \<Rightarrow> string" where
  "charAt s i = take 1 (drop i s)"

definition backslash :: char where
  "backslash = CHR 0x5C"

text \<open>The test \<open>.match(/[a-zA-Z]/)\<close> on the result of \<open>charAt\<close>.\<close>

definition matchesLetter :: "string \<Rightarrow> bool" where
  "matchesLetter s =
     list_ex (\<lambda>c. c \<in> set (''abcdefghijklmnopqrstuvwxyz'' @ ''ABCDEFGHIJKLMNOPQRSTUVWXYZ'')) s"

subsection \<open>Matches of a regular expression\<close>

text \<open>
  One element of \<open>[...eqn.matchAll(regex)]\<close>: the index of the match, the matched text
  \<open>match[0]\<close> and the captures \<open>match[1]\<close> and \<open>match[2]\<close> (empty when the expression
  has no such group).
\<close>

record RegExpMatch =
  index :: nat
  match0 :: string
  match1 :: string
  match2 :: string

text \<open>
  The expressions of the grouped matchers, for the commands \<open>braket\<close>, \<open>bra\<close>, \<open>ket\<close>,
  for \<open>set\<close> and for \<open>frac\<close>, are a backslash, one of a list of words and an opening
  brace. The engine tries the words in their order at each index from the left, and goes
  on after the end of a match (one further for an empty match).
\<close>

function matchAllFrom :: "string \<Rightarrow> string list \<Rightarrow> string \<Rightarrow> string \<Rightarrow> nat \<Rightarrow> RegExpMatch list" where
  "matchAllFrom prefix ws suffix text i =
     (if length text < i then []
      else case find (\<lambda>w. slice text i (i + length (prefix @ w @ suffix)) = prefix @ w @ suffix) ws of
             None \<Rightarrow> matchAllFrom prefix ws suffix text (Suc i)
           | Some w \<Rightarrow>
               \<lparr>index = i, match0 = prefix @ w @ suffix, match1 = w, match2 = []\<rparr>
               # matchAllFrom prefix ws suffix text (i + max 1 (length (prefix @ w @ suffix))))"
  by pat_completeness auto
termination
  by (relation "measure (\<lambda>(prefix, ws, suffix, text, i). Suc (length text) - i)") auto

definition matchAll :: "string \<Rightarrow> string list \<Rightarrow> string \<Rightarrow> string \<Rightarrow> RegExpMatch list" where
  "matchAll prefix ws suffix text = matchAllFrom prefix ws suffix text 0"

subsection \<open>The bracket matcher (editor-utils)\<close>

text \<open>
  The forward search of \<open>findMatchingBracket\<close>, the one the scanner calls
  (\<open>searchBackwards\<close> false). The loop runs from \<open>start\<close> to \<open>stop\<close> with the count
  \<open>brackets\<close>, which can go below zero; \<open>None\<close> is the result -1. The variables
  \<open>start\<close> of the source are written \<open>start0\<close> here and below.
\<close>

function findMatchingBracketLoop :: "string \<Rightarrow> string \<Rightarrow> string \<Rightarrow> nat \<Rightarrow> nat \<Rightarrow> int \<Rightarrow> nat option" where
  "findMatchingBracketLoop text openBracket closeBracket stop i brackets =
     (if i < stop then
        if slice text i (i + length openBracket) = openBracket
        then findMatchingBracketLoop text openBracket closeBracket stop (Suc i) (brackets + 1)
        else if slice text i (i + length closeBracket) = closeBracket
        then (if brackets - 1 = 0 then Some i
              else findMatchingBracketLoop text openBracket closeBracket stop (Suc i) (brackets - 1))
        else findMatchingBracketLoop text openBracket closeBracket stop (Suc i) brackets
      else None)"
  by pat_completeness auto
termination
  by (relation "measure (\<lambda>(text, openBracket, closeBracket, stop, i, brackets). stop - i)") auto

text \<open>The optional \<open>end\<close> counts as absent when it is 0 (\<open>end ? end : text.length\<close>).\<close>

definition findMatchingBracket :: "string \<Rightarrow> nat \<Rightarrow> string \<Rightarrow> string \<Rightarrow> nat option \<Rightarrow> nat option" where
  "findMatchingBracket text start0 openBracket closeBracket end_opt =
     (let stop = (case end_opt of None \<Rightarrow> length text
                  | Some e \<Rightarrow> if e = 0 then length text else e)
      in findMatchingBracketLoop text openBracket closeBracket stop start0 0)"

subsection \<open>Operators and symbols\<close>

definition LIMITS :: string where
  "LIMITS = backslash # ''limits''"

definition getEndIncludingLimits :: "string \<Rightarrow> nat \<Rightarrow> nat" where
  "getEndIncludingLimits eqn e =
     (if substring eqn e (e + length LIMITS) = LIMITS then e + length LIMITS else e)"

text \<open>
  The expressions of \<open>concealSymbols\<close> and \<open>concealOperators\<close> are built from the symbol
  tables of the conceal-maps module and run by the engine of the host: the array \<open>matches\<close> is
  a parameter, and so is the lookup \<open>symbolMap[symbol]\<close>. A \<open>ConcealSpecList\<close> is the list
  of the \<open>inner\<close> fields of its wrappers.
\<close>

fun concealSymbols :: "string \<Rightarrow> RegExpMatch list \<Rightarrow> (string \<Rightarrow> string) \<Rightarrow> string option \<Rightarrow> bool \<Rightarrow> ConcealSpec list" where
  "concealSymbols eqn [] symbolMap className allowSucceedingLetters = []"
| "concealSymbols eqn (m # matches) symbolMap className allowSucceedingLetters =
     (let symbol = match1 m in
      if \<not> allowSucceedingLetters \<and> matchesLetter (charAt eqn (index m + length (match0 m)))
      then concealSymbols eqn matches symbolMap className allowSucceedingLetters
      else
        let e = getEndIncludingLimits eqn (index m + length (match0 m))
        in Single \<lparr>start = index m, end' = e, replacement = symbolMap symbol,
                    class' = className, elementType = None\<rparr>
           # concealSymbols eqn matches symbolMap className allowSucceedingLetters)"

fun concealOperators :: "string \<Rightarrow> RegExpMatch list \<Rightarrow> ConcealSpec list" where
  "concealOperators eqn [] = []"
| "concealOperators eqn (m # matches) =
     (let value = match2 m;
          start0 = index m;
          e = getEndIncludingLimits eqn (start0 + length (match1 m))
      in Single \<lparr>start = start0, end' = e, replacement = value,
                  class' = Some ''cm-concealed-mathrm cm-variable-2'', elementType = None\<rparr>
         # concealOperators eqn matches)"

subsection \<open>Grouped constructs\<close>

text \<open>The glyphs \<open>langle\<close> (U+3008) and \<open>rangle\<close> (U+3009), as their UTF-8 bytes.\<close>

definition langle :: string where
  "langle = [CHR 0xE3, CHR 0x80, CHR 0x88]"

definition rangle :: string where
  "rangle = [CHR 0xE3, CHR 0x80, CHR 0x89]"

definition vert :: string where
  "vert = ''|''"

fun concealBraKetLoop :: "string \<Rightarrow> RegExpMatch list \<Rightarrow> ConcealSpec list" where
  "concealBraKetLoop eqn [] = []"
| "concealBraKetLoop eqn (m # matches) =
     (case findMatchingBracket eqn (index m) ''{'' ''}'' None of
        None \<Rightarrow> concealBraKetLoop eqn matches
      | Some contentEnd \<Rightarrow>
          let commandStart = index m;
              contentStart = commandStart + length (match0 m) - 1;
              type = match1 m;
              left = (if type = ''ket'' then vert else langle);
              right = (if type = ''bra'' then vert else rangle);
              concealSpec = Group [
                Single \<lparr>start = commandStart, end' = contentStart, replacement = [],
                         class' = None, elementType = None\<rparr>,
                Single \<lparr>start = contentStart, end' = contentStart + 1, replacement = left,
                         class' = Some ''cm-bracket'', elementType = None\<rparr>,
                Single \<lparr>start = contentEnd, end' = contentEnd + 1, replacement = right,
                         class' = Some ''cm-bracket'', elementType = None\<rparr>]
          in concealSpec # concealBraKetLoop eqn matches)"

definition concealBraKet :: "string \<Rightarrow> ConcealSpec list" where
  "concealBraKet eqn =
     concealBraKetLoop eqn (matchAll [backslash] [''braket'', ''bra'', ''ket''] ''{'' eqn)"

fun concealSetLoop :: "string \<Rightarrow> RegExpMatch list \<Rightarrow> ConcealSpec list" where
  "concealSetLoop eqn [] = []"
| "concealSetLoop eqn (m # matches) =
     (let commandStart = index m;
          contentStart = commandStart + length (match0 m) - 1
      in case findMatchingBracket eqn commandStart ''{'' ''}'' None of
           None \<Rightarrow> concealSetLoop eqn matches
         | Some contentEnd \<Rightarrow>
             let concealSpec = Group [
                   Single \<lparr>start = commandStart, end' = contentStart, replacement = [],
                            class' = None, elementType = None\<rparr>,
                   Single \<lparr>start = contentStart, end' = contentStart + 1, replacement = ''{'',
                            class' = Some ''cm-bracket'', elementType = None\<rparr>,
                   Single \<lparr>start = contentEnd, end' = contentEnd + 1, replacement = ''}'',
                            class' = Some ''cm-bracket'', elementType = None\<rparr>]
             in concealSpec # concealSetLoop eqn matches)"

definition concealSet :: "string \<Rightarrow> ConcealSpec list" where
  "concealSet eqn = concealSetLoop eqn (matchAll [backslash] [''set''] ''{'' eqn)"

fun concealFractionLoop :: "string \<Rightarrow> RegExpMatch list \<Rightarrow> ConcealSpec list" where
  "concealFractionLoop eqn [] = []"
| "concealFractionLoop eqn (m # matches) =
     (case findMatchingBracket eqn (index m) ''{'' ''}'' None of
        None \<Rightarrow> concealFractionLoop eqn matches
      | Some numeratorEnd \<Rightarrow>
          if charAt eqn (numeratorEnd + 1) \<noteq> ''{'' then concealFractionLoop eqn matches
          else
            case findMatchingBracket eqn (numeratorEnd + 1) ''{'' ''}'' None of
              None \<Rightarrow> concealFractionLoop eqn matches
            | Some denominatorEnd \<Rightarrow>
                let commandStart = index m;
                    numeratorStart = commandStart + length (match0 m) - 1;
                    denominatorStart = numeratorEnd + 1;
                    concealSpec = Group [
                      Single \<lparr>start = commandStart, end' = numeratorStart, replacement = [],
                               class' = None, elementType = None\<rparr>,
                      Single \<lparr>start = numeratorStart, end' = numeratorStart + 1,
                               replacement = ''('', class' = Some ''cm-bracket'', elementType = None\<rparr>,
                      Single \<lparr>start = numeratorEnd, end' = numeratorEnd + 1,
                               replacement = '')'', class' = Some ''cm-bracket'', elementType = None\<rparr>,
                      Single \<lparr>start = numeratorEnd + 1, end' = numeratorEnd + 1,
                               replacement = ''/'', class' = Some ''cm-bracket'', elementType = None\<rparr>,
                      Single \<lparr>start = denominatorStart, end' = denominatorStart + 1,
                               replacement = ''('', class' = Some ''cm-bracket'', elementType = None\<rparr>,
                      Single \<lparr>start = denominatorEnd, end' = denominatorEnd + 1,
                               replacement = '')'', class' = Some ''cm-bracket'', elementType = None\<rparr>]
                in concealSpec # concealFractionLoop eqn matches)"

definition concealFraction :: "string \<Rightarrow> ConcealSpec list" where
  "concealFraction eqn = concealFractionLoop eqn (matchAll [backslash] [''frac''] ''{'' eqn)"

text \<open>
  The caller \<open>conceal\<close> makes the offsets of every individual object positions of the
  document, by adding the start of the equation to both.
\<close>

fun shiftSpec :: "nat \<Rightarrow> ConcealSpec \<Rightarrow> ConcealSpec" where
  "shiftSpec boundsStart (Single r) =
     Single (r\<lparr>start := start r + boundsStart, end' := end' r + boundsStart\<rparr>)"
| "shiftSpec boundsStart (Group subs) = Group (map (shiftSpec boundsStart) subs)"

subsection \<open>The other matchers and the scan of one equation\<close>

text \<open>
  The remaining matchers emit one Replacement for a match of their expression; as for
  \<open>concealSymbols\<close>, the array of the matches and the lookups in the tables are
  parameters. \<open>concealSupSub\<close> rewrites the symbols inside the exponent with a second
  expression, built from the table: \<open>replaceSymbols\<close> is that rewriting.
\<close>

fun concealModifier :: "RegExpMatch list \<Rightarrow> string \<Rightarrow> ConcealSpec list" where
  "concealModifier [] combiningCharacter = []"
| "concealModifier (m # matches) combiningCharacter =
     (let symbol = match1 m
      in Single \<lparr>start = index m, end' = index m + length (match0 m),
                  replacement = symbol @ combiningCharacter,
                  class' = Some ''latex-suite-unicode'', elementType = None\<rparr>
         # concealModifier matches combiningCharacter)"

fun concealSupSub :: "RegExpMatch list \<Rightarrow> bool \<Rightarrow> (string \<Rightarrow> string) \<Rightarrow> ConcealSpec list" where
  "concealSupSub [] superscript replaceSymbols = []"
| "concealSupSub (m # matches) superscript replaceSymbols =
     (let exponent = match1 m;
          elementType = (if superscript then ''sup'' else ''sub'');
          replacement = replaceSymbols exponent
      in Single \<lparr>start = index m, end' = index m + length (match0 m),
                  replacement = replacement, class' = Some ''cm-number'',
                  elementType = Some elementType\<rparr>
         # concealSupSub matches superscript replaceSymbols)"

fun concealModified_A_to_Z_0_to_9 :: "string \<Rightarrow> RegExpMatch list \<Rightarrow> (string \<Rightarrow> string) \<Rightarrow> ConcealSpec list" where
  "concealModified_A_to_Z_0_to_9 eqn [] mathBBsymbolMap = []"
| "concealModified_A_to_Z_0_to_9 eqn (m # matches) mathBBsymbolMap =
     (let type = match1 m;
          value = match2 m;
          start0 = index m;
          e = start0 + length (match0 m);
          rest = concealModified_A_to_Z_0_to_9 eqn matches mathBBsymbolMap
      in if type = ''mathbf'' \<or> type = ''boldsymbol''
         then Single \<lparr>start = start0, end' = e, replacement = value,
                       class' = Some ''cm-concealed-bold'', elementType = None\<rparr> # rest
         else if type = ''underline''
         then Single \<lparr>start = start0, end' = e, replacement = value,
                       class' = Some ''cm-concealed-underline'', elementType = None\<rparr> # rest
         else if type = ''mathrm''
         then Single \<lparr>start = start0, end' = e, replacement = value,
                       class' = Some ''cm-concealed-mathrm'', elementType = None\<rparr> # rest
         else if type = ''text''
         then (if start0 > 0 \<and> charAt eqn (start0 - 1) = ''_''
               then Single \<lparr>start = start0 - 1, end' = e, replacement = value,
                             class' = Some ''cm-concealed-mathrm'', elementType = Some ''sub''\<rparr>
                    # rest
               else rest)
         else if type = ''mathbb''
         then Single \<lparr>start = start0, end' = e,
                       replacement = concat (map (\<lambda>el. mathBBsymbolMap [el]) value),
                       class' = None, elementType = None\<rparr> # rest
         else rest)"

fun concealModifiedGreekLetters :: "RegExpMatch list \<Rightarrow> (string \<Rightarrow> string) \<Rightarrow> ConcealSpec list" where
  "concealModifiedGreekLetters [] greekSymbolMap = []"
| "concealModifiedGreekLetters (m # matches) greekSymbolMap =
     (let type = match1 m;
          value = match2 m;
          start0 = index m;
          e = start0 + length (match0 m);
          rest = concealModifiedGreekLetters matches greekSymbolMap
      in if type = ''underline''
         then Single \<lparr>start = start0, end' = e, replacement = greekSymbolMap value,
                       class' = Some ''cm-concealed-underline'', elementType = None\<rparr> # rest
         else if type = ''boldsymbol''
         then Single \<lparr>start = start0, end' = e, replacement = greekSymbolMap value,
                       class' = Some ''cm-concealed-bold'', elementType = None\<rparr> # rest
         else rest)"

fun concealText :: "RegExpMatch list \<Rightarrow> ConcealSpec list" where
  "concealText [] = []"
| "concealText (m # matches) =
     (let value = match1 m;
          start0 = index m;
          e = start0 + length (match0 m)
      in Single \<lparr>start = start0, end' = e, replacement = value,
                  class' = Some ''cm-concealed-mathrm cm-variable-2'', elementType = None\<rparr>
         # concealText matches)"

fun concealAtoZ :: "RegExpMatch list \<Rightarrow> (string \<Rightarrow> string) \<Rightarrow> string option \<Rightarrow> ConcealSpec list" where
  "concealAtoZ [] symbolMap className = []"
| "concealAtoZ (m # matches) symbolMap className =
     (let symbol = match1 m;
          replacement = concat (map (\<lambda>el. symbolMap [el]) symbol)
      in Single \<lparr>start = index m, end' = index m + length (match0 m),
                  replacement = replacement, class' = className, elementType = None\<rparr>
         # concealAtoZ matches symbolMap className)"

text \<open>
  The lookups in the tables of the conceal-maps module (\<open>all_symbols\<close> is the table
  made of \<open>greek\<close> and \<open>cmd_symbols\<close>), and what the engine of the host returns on one
  equation for the expression of each call of a table-driven matcher, in the order of
  the calls.
\<close>

record ConcealMaps =
  map_super :: "string \<Rightarrow> string"
  map_sub :: "string \<Rightarrow> string"
  fractions :: "string \<Rightarrow> string"
  all_symbols :: "string \<Rightarrow> string"
  brackets :: "string \<Rightarrow> string"
  mathscrcal :: "string \<Rightarrow> string"
  greek :: "string \<Rightarrow> string"
  mathbb :: "string \<Rightarrow> string"

record EquationMatches =
  superMatches :: "RegExpMatch list"
  subMatches :: "RegExpMatch list"
  fractionMatches :: "RegExpMatch list"
  symbolMatches :: "RegExpMatch list"
  supMatches :: "RegExpMatch list"
  subscriptMatches :: "RegExpMatch list"
  replaceSymbols :: "string \<Rightarrow> string"
  hatMatches :: "RegExpMatch list"
  dotMatches :: "RegExpMatch list"
  ddotMatches :: "RegExpMatch list"
  overlineMatches :: "RegExpMatch list"
  barMatches :: "RegExpMatch list"
  tildeMatches :: "RegExpMatch list"
  vecMatches :: "RegExpMatch list"
  bracketMatches :: "RegExpMatch list"
  mathcalMatches :: "RegExpMatch list"
  modifiedGreekMatches :: "RegExpMatch list"
  modifiedMatches :: "RegExpMatch list"
  textMatches :: "RegExpMatch list"
  operatorMatches :: "RegExpMatch list"

text \<open>
  The callback of \<open>conceal\<close> on the text \<open>eqn\<close> of one equation that starts at
  \<open>boundsStart\<close>: the list of all matchers' results in their fixed order, every offset
  made a position of the document. The combining characters are written as their UTF-8
  bytes.
\<close>

definition concealEquation :: "ConcealMaps \<Rightarrow> EquationMatches \<Rightarrow> string \<Rightarrow> nat \<Rightarrow> ConcealSpec list" where
  "concealEquation maps ms eqn boundsStart =
     (let lst =
            concealSymbols eqn (superMatches ms) (map_super maps) None True
          @ concealSymbols eqn (subMatches ms) (map_sub maps) None True
          @ concealSymbols eqn (fractionMatches ms) (fractions maps) None True
          @ concealSymbols eqn (symbolMatches ms) (all_symbols maps) None False
          @ concealSupSub (supMatches ms) True (replaceSymbols ms)
          @ concealSupSub (subscriptMatches ms) False (replaceSymbols ms)
          @ concealModifier (hatMatches ms) [CHR 0xCC, CHR 0x82]
          @ concealModifier (dotMatches ms) [CHR 0xCC, CHR 0x87]
          @ concealModifier (ddotMatches ms) [CHR 0xCC, CHR 0x88]
          @ concealModifier (overlineMatches ms) [CHR 0xCC, CHR 0x84]
          @ concealModifier (barMatches ms) [CHR 0xCC, CHR 0x84]
          @ concealModifier (tildeMatches ms) [CHR 0xCC, CHR 0x83]
          @ concealModifier (vecMatches ms) [CHR 0xE2, CHR 0x83, CHR 0x97]
          @ concealSymbols eqn (bracketMatches ms) (brackets maps) (Some ''cm-bracket'') True
          @ concealAtoZ (mathcalMatches ms) (mathscrcal maps) None
          @ concealModifiedGreekLetters (modifiedGreekMatches ms) (greek maps)
          @ concealModified_A_to_Z_0_to_9 eqn (modifiedMatches ms) (mathbb maps)
          @ concealText (textMatches ms)
          @ concealBraKet eqn
          @ concealSet eqn
          @ concealFraction eqn
          @ concealOperators eqn (operatorMatches ms)
      in map (shiftSpec boundsStart) lst)"

subsection \<open>The invariants of a group and the painted text\<close>

definition overlaps :: "Replacement \<Rightarrow> Replacement \<Rightarrow> bool" where
  "overlaps a b = (max (start a) (start b) < min (end' a) (end' b))"

definition sortedByStart :: "Replacement list \<Rightarrow> bool" where
  "sortedByStart rs = sorted_wrt (\<lambda>a b. start a \<le> start b) rs"

definition noOverlap :: "Replacement list \<Rightarrow> bool" where
  "noOverlap rs = sorted_wrt (\<lambda>a b. \<not> overlaps a b) rs"

text \<open>
  Modelled from the spec: the painting of the host's decorations, which is not code of
  this repository. Section 6 of the specification has each member Replacement of an
  enabled concealment replace the source text from \<open>start\<close> to \<open>end\<close> by its
  \<open>replacement\<close>, or insert it when \<open>start\<close> equals \<open>end\<close>; the text between the
  Replacements stays as it is. \<open>paintFrom text pos rs\<close> is the painted text from the
  position \<open>pos\<close> on, for Replacements in the order of their starts.
\<close>

fun paintFrom :: "string \<Rightarrow> nat \<Rightarrow> Replacement list \<Rightarrow> string" where
  "paintFrom text pos [] = drop pos text"
| "paintFrom text pos (r # rs) =
     slice text pos (start r) @ replacement r @ paintFrom text (end' r) rs"

definition paint :: "string \<Rightarrow> ConcealSpec \<Rightarrow> string" where
  "paint text concealSpec = paintFrom text 0 (members concealSpec)"

text \<open>
  The three invariants of the members of one ConcealSpec: sorted by start, no two of
  them overlapping, and no end before its start.
\<close>

definition wellFormedGroup :: "Replacement list \<Rightarrow> bool" where
  "wellFormedGroup rs =
     (sortedByStart rs \<and> noOverlap rs \<and> list_all (\<lambda>r. start r \<le> end' r) rs)"

text \<open>
  The two loops are unfolded one step at a time in the proofs below, never by the
  simplifier on its own.
\<close>

declare matchAllFrom.simps [simp del]

declare findMatchingBracketLoop.simps [simp del]

section \<open>Properties of the action table\<close>

text \<open>
  C1. With the mouse up, the action for each of the nine pairs of a previous and a
  current cursor classification is the one of the decision table: a current \<open>apart\<close>
  conceals and a current \<open>within\<close> reveals, whatever the previous classification was; a
  current \<open>edge\<close> delays after \<open>apart\<close> or \<open>edge\<close> and reveals after \<open>within\<close>. With the
  mouse down the action is to conceal, whatever the two classifications are.
\<close>

theorem determineAction_table:
  "determineAction (Some Apart) Apart False = Conceal \<and>
   determineAction (Some Apart) Edge False = Delay \<and>
   determineAction (Some Apart) Within False = Reveal \<and>
   determineAction (Some Edge) Apart False = Conceal \<and>
   determineAction (Some Edge) Edge False = Delay \<and>
   determineAction (Some Edge) Within False = Reveal \<and>
   determineAction (Some Within) Apart False = Conceal \<and>
   determineAction (Some Within) Edge False = Reveal \<and>
   determineAction (Some Within) Within False = Reveal \<and>
   determineAction oldCursor newCursor True = Conceal"
  by (simp add: determineAction_def)

text \<open>
  C3, as stated, asks for a delay when a candidate without a match in the previous state
  is classified \<open>edge\<close>. The code reveals it at once, as the row \<open>N/A\<close> of the table in
  the comment above \<open>determineAction\<close> says.
\<close>

theorem determineAction_no_match_edge_counterexample:
  "determineAction None Edge False \<noteq> Delay"
  by (simp add: determineAction_def)

text \<open>
  C3, amended. For a candidate that no concealment of the previous state matches, with
  the mouse up, the listener's action is to conceal when the new classification is
  \<open>apart\<close> and to reveal when it is \<open>edge\<close> or \<open>within\<close>; the concealment is enabled
  exactly in the first case.
\<close>

theorem reconcileOne_no_match:
  assumes "find (\<lambda>old. atSamePosAfter (changes_mapPos update) (spec old) concealSpec)
             (concealments oldState) = None"
    and "\<not> view_mousedown update"
  shows "snd (reconcileOne update oldState concealSpec) =
           (case determineCursorPosType (state_selection update) concealSpec of
              Apart \<Rightarrow> Conceal | Edge \<Rightarrow> Reveal | Within \<Rightarrow> Reveal) \<and>
         enable (fst (reconcileOne update oldState concealSpec)) =
           (determineCursorPosType (state_selection update) concealSpec = Apart)"
  using assms
  by (cases "determineCursorPosType (state_selection update) concealSpec")
     (simp_all add: reconcileOne_def determineAction_def Let_def)

theorem reconcileOne_no_match_witness:
  "snd (reconcileOne
          \<lparr>docChanged = False, viewportChanged = False, selectionSet = True,
           startState_field = \<lparr>concealments = [], revealTimeout = None\<rparr>,
           changes_mapPos = (\<lambda>pos assoc. pos),
           state_selection = \<lparr>ranges = [\<lparr>from' = 5, to = 5\<rparr>]\<rparr>,
           view_mousedown = False, view_conceal = []\<rparr>
          \<lparr>concealments = [], revealTimeout = None\<rparr>
          (Single \<lparr>start = 0, end' = 5, replacement = ''a'', class' = None,
                   elementType = None\<rparr>)) = Reveal"
proof -
  let ?u = "\<lparr>docChanged = False, viewportChanged = False, selectionSet = True,
           startState_field = \<lparr>concealments = [], revealTimeout = None\<rparr>,
           changes_mapPos = (\<lambda>pos assoc. pos),
           state_selection = \<lparr>ranges = [\<lparr>from' = 5, to = 5\<rparr>]\<rparr>,
           view_mousedown = False, view_conceal = []\<rparr>"
  let ?s = "\<lparr>concealments = [], revealTimeout = None\<rparr>"
  let ?c = "Single \<lparr>start = 0, end' = 5, replacement = ''a'', class' = None,
                   elementType = None\<rparr>"
  have h1: "find (\<lambda>old. atSamePosAfter (changes_mapPos ?u) (spec old) ?c)
              (concealments ?s) = None"
    by simp
  have h2: "\<not> view_mousedown ?u"
    by simp
  have c: "determineCursorPosType (state_selection ?u) ?c = Edge"
    by (simp add: determineCursorPosType_def classifyStep_def touchesBoundary_def
        overlapRangeFrom_def overlapRangeTo_def)
  show ?thesis
    using reconcileOne_no_match [OF h1 h2] c by simp
qed

section \<open>Properties of the cursor classifier\<close>

lemma iter_classifyStep:
  "iterConcealSpec cs (classifyStep r) cur =
     (if list_ex (withinOverlap r) (members cs) then (False, Within)
      else (True, if list_ex (touchesBoundary r) (members cs) then Edge else cur))"
  "iterSubSpecs subs (classifyStep r) cur =
     (if list_ex (withinOverlap r) (concat (map members subs)) then (False, Within)
      else (True, if list_ex (touchesBoundary r) (concat (map members subs)) then Edge else cur))"
proof (induction cs "classifyStep r" cur and subs "classifyStep r" cur
    rule: iterConcealSpec_iterSubSpecs.induct)
  case (1 m s)
  then show ?case by (simp add: classifyStep_def withinOverlap_def)
next
  case (2 subs s)
  then show ?case by simp
next
  case (3 s)
  then show ?case by simp
next
  case (4 subSpec rest s)
  then show ?case by (auto simp: list_ex_iff)
qed

lemma classifyRanges_char:
  "cur \<noteq> Within \<Longrightarrow> classifyRanges rs cs cur =
     (if list_ex (\<lambda>r. list_ex (withinOverlap r) (members cs)) rs then Within
      else if list_ex (\<lambda>r. list_ex (touchesBoundary r) (members cs)) rs then Edge
      else cur)"
proof (induction rs arbitrary: cur)
  case Nil
  then show ?case by simp
next
  case (Cons r rs)
  then show ?case by (simp add: iter_classifyStep Let_def)
qed

lemma determineCursorPosType_char:
  "determineCursorPosType sel cs =
     (if (\<exists>r \<in> set (ranges sel). \<exists>m \<in> set (members cs). withinOverlap r m) then Within
      else if (\<exists>r \<in> set (ranges sel). \<exists>m \<in> set (members cs). touchesBoundary r m) then Edge
      else Apart)"
  by (simp add: determineCursorPosType_def classifyRanges_char list_ex_iff)

text \<open>
  C2, as stated, has the classifier return \<open>within\<close> exactly when some overlap interval
  is non-empty. A cursor at position 2 and a Replacement from 0 to 5 have the empty
  overlap interval from 2 to 2, and the classifier returns \<open>within\<close>.
\<close>

theorem determineCursorPosType_nonempty_counterexample:
  "determineCursorPosType \<lparr>ranges = [\<lparr>from' = 2, to = 2\<rparr>]\<rparr>
     (Single \<lparr>start = 0, end' = 5, replacement = ''a'', class' = None, elementType = None\<rparr>)
     = Within \<and>
   \<not> (overlapRangeFrom \<lparr>from' = 2, to = 2\<rparr>
          \<lparr>start = 0, end' = 5, replacement = ''a'', class' = None, elementType = None\<rparr>
        < overlapRangeTo \<lparr>from' = 2, to = 2\<rparr>
          \<lparr>start = 0, end' = 5, replacement = ''a'', class' = None, elementType = None\<rparr>)"
  by (simp add: determineCursorPosType_def classifyStep_def touchesBoundary_def
      overlapRangeFrom_def overlapRangeTo_def)

text \<open>
  C2, amended. For every selection and every ConcealSpec, the classifier returns
  \<open>within\<close> exactly when some selection range and some member Replacement have an
  overlap interval whose lower end is at most its upper end and which is not a single
  point on a boundary of the Replacement; every non-empty overlap interval is one of
  these. It returns \<open>edge\<close> when no such pair exists and some overlap interval is a
  single point on a boundary of the Replacement, and \<open>apart\<close> otherwise: over all ranges
  and all member Replacements, \<open>within\<close> comes before \<open>edge\<close>, and \<open>edge\<close> before
  \<open>apart\<close>.
\<close>

theorem determineCursorPosType_priority:
  "determineCursorPosType sel cs =
     (if (\<exists>r \<in> set (ranges sel). \<exists>m \<in> set (members cs).
            \<not> touchesBoundary r m \<and> overlapRangeFrom r m \<le> overlapRangeTo r m) then Within
      else if (\<exists>r \<in> set (ranges sel). \<exists>m \<in> set (members cs). touchesBoundary r m) then Edge
      else Apart) \<and>
   (overlapRangeFrom r' m' < overlapRangeTo r' m' \<longrightarrow>
      \<not> touchesBoundary r' m' \<and> overlapRangeFrom r' m' \<le> overlapRangeTo r' m') \<and>
   touchesBoundary r' m' =
     (overlapRangeFrom r' m' = overlapRangeTo r' m' \<and>
      (overlapRangeFrom r' m' = start m' \<or> overlapRangeFrom r' m' = end' m'))"
proof -
  have 1: "determineCursorPosType sel cs =
     (if (\<exists>r \<in> set (ranges sel). \<exists>m \<in> set (members cs).
            \<not> touchesBoundary r m \<and> overlapRangeFrom r m \<le> overlapRangeTo r m) then Within
      else if (\<exists>r \<in> set (ranges sel). \<exists>m \<in> set (members cs). touchesBoundary r m) then Edge
      else Apart)"
    by (simp only: determineCursorPosType_char withinOverlap_def)
  have 2: "overlapRangeFrom r' m' < overlapRangeTo r' m' \<longrightarrow>
      \<not> touchesBoundary r' m' \<and> overlapRangeFrom r' m' \<le> overlapRangeTo r' m'"
    by (simp add: touchesBoundary_def)
  have 3: "touchesBoundary r' m' =
     (overlapRangeFrom r' m' = overlapRangeTo r' m' \<and>
      (overlapRangeFrom r' m' = start m' \<or> overlapRangeFrom r' m' = end' m'))"
    by (simp add: touchesBoundary_def)
  show ?thesis
    by (rule conjI [OF 1 conjI [OF 2 3]])
qed

theorem determineCursorPosType_priority_witness:
  "determineCursorPosType \<lparr>ranges = [\<lparr>from' = 5, to = 5\<rparr>, \<lparr>from' = 9, to = 12\<rparr>]\<rparr>
     (Group [Single \<lparr>start = 0, end' = 5, replacement = ''a'', class' = None, elementType = None\<rparr>,
             Single \<lparr>start = 10, end' = 11, replacement = ''b'', class' = None, elementType = None\<rparr>])
     = Within"
  using determineCursorPosType_priority
    [of "\<lparr>ranges = [\<lparr>from' = 5, to = 5\<rparr>, \<lparr>from' = 9, to = 12\<rparr>]\<rparr>"
        "Group [Single \<lparr>start = 0, end' = 5, replacement = ''a'', class' = None, elementType = None\<rparr>,
             Single \<lparr>start = 10, end' = 11, replacement = ''b'', class' = None, elementType = None\<rparr>]"
        "\<lparr>from' = 9, to = 12\<rparr>"
        "\<lparr>start = 10, end' = 11, replacement = ''b'', class' = None, elementType = None\<rparr>"]
  by (simp add: touchesBoundary_def overlapRangeFrom_def overlapRangeTo_def)

text \<open>
  C10. When a range of the selection is a cursor (its two ends are equal) that lies
  strictly between the start and the end of a member Replacement, the classifier returns
  \<open>within\<close>, although the overlap interval of the two is empty: its two ends are equal,
  and the point is no boundary of the Replacement.
\<close>

theorem determineCursorPosType_cursor_inside:
  assumes "r \<in> set (ranges sel)" and "from' r = to r"
    and "m \<in> set (members cs)" and "start m < from' r" and "from' r < end' m"
  shows "determineCursorPosType sel cs = Within \<and>
         overlapRangeFrom r m = overlapRangeTo r m \<and>
         overlapRangeFrom r m \<noteq> start m \<and> overlapRangeFrom r m \<noteq> end' m"
proof -
  have eq: "overlapRangeFrom r m = overlapRangeTo r m"
    and ne: "overlapRangeFrom r m \<noteq> start m" "overlapRangeFrom r m \<noteq> end' m"
    using assms by (simp_all add: overlapRangeFrom_def overlapRangeTo_def)
  then have "withinOverlap r m"
    by (simp add: withinOverlap_def touchesBoundary_def)
  with assms(1,3) have "determineCursorPosType sel cs = Within"
    by (auto simp: determineCursorPosType_char)
  with eq ne show ?thesis by simp
qed

theorem determineCursorPosType_cursor_inside_witness:
  "determineCursorPosType \<lparr>ranges = [\<lparr>from' = 3, to = 3\<rparr>]\<rparr>
     (Single \<lparr>start = 1, end' = 7, replacement = ''a'', class' = None, elementType = None\<rparr>)
     = Within"
proof -
  let ?r = "\<lparr>from' = 3, to = 3\<rparr>"
  let ?m = "\<lparr>start = 1, end' = 7, replacement = ''a'', class' = None, elementType = None\<rparr>"
  have h1: "?r \<in> set (ranges \<lparr>ranges = [?r]\<rparr>)" by simp
  have h2: "from' ?r = to ?r" by simp
  have h3: "?m \<in> set (members (Single ?m))" by simp
  have h4: "start ?m < from' ?r" by simp
  have h5: "from' ?r < end' ?m" by simp
  show ?thesis
    using determineCursorPosType_cursor_inside [OF h1 h2 h3 h4 h5] by simp
qed

section \<open>Properties of the identity across an edit\<close>

lemma sameShape_length_members:
  "sameShape a b \<Longrightarrow> length (members a) = length (members b)"
proof (induction a b rule: sameShape.induct)
  case (2 as bs)
  then have "list_all2 (\<lambda>a b. length (members a) = length (members b)) as bs"
    by (auto simp: list_all2_conv_all_nth in_set_zip set_zip)
  then have "length (concat (map members as)) = length (concat (map members bs))"
    by (induction as bs rule: list_all2_induct) auto
  then show ?case by simp
qed auto

lemma atSamePosAfter_char:
  "atSamePosAfter mp a b \<longleftrightarrow>
     sameShape a b \<and> list_all2 (boundariesMapped mp) (members a) (members b)"
  "length as = length bs \<Longrightarrow> atSamePosAfterEach mp as bs \<longleftrightarrow>
     list_all2 sameShape as bs \<and>
     list_all2 (boundariesMapped mp) (concat (map members as)) (concat (map members bs))"
proof (induction mp a b and mp as bs rule: atSamePosAfter_atSamePosAfterEach.induct)
  case (1 mapPos oldConceal newConceal)
  then show ?case by (simp add: boundariesMapped_def)
next
  case (2 mapPos olds news)
  then show ?case by (auto dest: list_all2_lengthD)
next
  case (5 mapPos old olds new news)
  then show ?case
    by (auto simp: list_all2_append dest: sameShape_length_members)
qed auto

text \<open>
  C5. For every edit, an old and a new ConcealSpec are at the same position after the
  edit if and only if they have the same shape (both are single, or both are groups of
  the same length, member by member) and, for each pair of corresponding member
  Replacements, the old start mapped with the association 1 (to the right) is the new
  start and the old end mapped with the association -1 (to the left) is the new end.
\<close>

theorem atSamePosAfter_iff:
  "atSamePosAfter mapPos oldConceal newConceal \<longleftrightarrow>
     sameShape oldConceal newConceal \<and>
     list_all2 (\<lambda>old new. mapPos (start old) 1 = start new \<and>
                            mapPos (end' old) (- 1) = end' new)
       (members oldConceal) (members newConceal)"
  using atSamePosAfter_char(1) [of mapPos oldConceal newConceal]
  by (simp add: boundariesMapped_def [abs_def])

theorem atSamePosAfter_iff_witness:
  "atSamePosAfter (\<lambda>pos assoc. if pos < 3 then pos else if pos = 3 \<and> assoc < 0 then 3 else pos + 1)
     (Group [Single \<lparr>start = 3, end' = 5, replacement = ''a'', class' = None, elementType = None\<rparr>,
             Single \<lparr>start = 7, end' = 7, replacement = ''b'', class' = None, elementType = None\<rparr>])
     (Group [Single \<lparr>start = 4, end' = 6, replacement = ''a'', class' = None, elementType = None\<rparr>,
             Single \<lparr>start = 8, end' = 8, replacement = ''b'', class' = None, elementType = None\<rparr>])"
  using atSamePosAfter_iff
    [of "\<lambda>pos assoc. if pos < 3 then pos else if pos = 3 \<and> assoc < 0 then 3 else pos + 1"
        "Group [Single \<lparr>start = 3, end' = 5, replacement = ''a'', class' = None, elementType = None\<rparr>,
             Single \<lparr>start = 7, end' = 7, replacement = ''b'', class' = None, elementType = None\<rparr>]"
        "Group [Single \<lparr>start = 4, end' = 6, replacement = ''a'', class' = None, elementType = None\<rparr>,
             Single \<lparr>start = 8, end' = 8, replacement = ''b'', class' = None, elementType = None\<rparr>]"]
  by simp

section \<open>Properties of the scanner\<close>

lemma find_Some_holds:
  "find P xs = Some x \<Longrightarrow> P x \<and> x \<in> set xs"
  by (induction xs) (auto split: if_splits)

lemma matchAllFrom_sound:
  "m \<in> set (matchAllFrom p ws s tx i) \<Longrightarrow>
     match1 m \<in> set ws \<and> match0 m = p @ match1 m @ s \<and>
     slice tx (index m) (index m + length (match0 m)) = match0 m \<and> i \<le> index m"
proof (induction p ws s tx i rule: matchAllFrom.induct)
  case (1 p ws s tx i)
  show ?case
  proof (cases "length tx < i")
    case True
    with "1.prems" show ?thesis by (simp add: matchAllFrom.simps [of p ws s tx i])
  next
    case False
    show ?thesis
    proof (cases "find (\<lambda>w. slice tx i (i + length (p @ w @ s)) = p @ w @ s) ws")
      case None
      with False "1.prems" have "m \<in> set (matchAllFrom p ws s tx (Suc i))"
        by (simp add: matchAllFrom.simps [of p ws s tx i])
      from "1.IH"(1) [OF False None this] show ?thesis by (elim conjE) (intro conjI, simp_all)
    next
      case (Some w)
      with False "1.prems" consider
          "m = \<lparr>index = i, match0 = p @ w @ s, match1 = w, match2 = []\<rparr>"
        | "m \<in> set (matchAllFrom p ws s tx (i + max 1 (length (p @ w @ s))))"
        by (auto simp: matchAllFrom.simps [of p ws s tx i])
      then show ?thesis
      proof cases
        case 1
        with find_Some_holds [OF Some] show ?thesis by simp
      next
        case 2
        from "1.IH"(2) [OF False Some this] show ?thesis by (elim conjE) (intro conjI, simp_all)
      qed
    qed
  qed
qed

lemma findMatchingBracketLoop_Some:
  "findMatchingBracketLoop tx ob cb stop i b = Some j \<Longrightarrow>
     i \<le> j \<and> j < stop \<and> slice tx j (j + length cb) = cb"
proof (induction tx ob cb stop i b rule: findMatchingBracketLoop.induct)
  case (1 tx ob cb stop i b)
  show ?case
  proof (cases "i < stop")
    case False
    with "1.prems" show ?thesis
      by (simp add: findMatchingBracketLoop.simps [of tx ob cb stop i b])
  next
    case True
    note unf = findMatchingBracketLoop.simps [of tx ob cb stop i b]
    show ?thesis
    proof (cases "slice tx i (i + length ob) = ob")
      case op: True
      with True "1.prems" have "findMatchingBracketLoop tx ob cb stop (Suc i) (b + 1) = Some j"
        by (simp add: unf)
      with "1.IH"(1) [OF True op] show ?thesis by simp
    next
      case nop: False
      show ?thesis
      proof (cases "slice tx i (i + length cb) = cb")
        case cl: True
        show ?thesis
        proof (cases "b - 1 = 0")
          case z: True
          with True nop cl "1.prems" have "j = i" by (simp add: unf)
          with True cl show ?thesis by simp
        next
          case nz: False
          with True nop cl "1.prems"
          have "findMatchingBracketLoop tx ob cb stop (Suc i) (b - 1) = Some j" by (simp add: unf)
          with "1.IH"(2) [OF True nop cl nz] show ?thesis by simp
        qed
      next
        case ncl: False
        with True nop "1.prems"
        have "findMatchingBracketLoop tx ob cb stop (Suc i) b = Some j" by (simp add: unf)
        with "1.IH"(3) [OF True nop ncl] show ?thesis by simp
      qed
    qed
  qed
qed

lemma findMatchingBracket_Some:
  "findMatchingBracket tx i ob cb None = Some j \<Longrightarrow>
     i \<le> j \<and> j < length tx \<and> slice tx j (j + length cb) = cb"
  using findMatchingBracketLoop_Some [of tx ob cb "length tx" i 0 j]
  by (simp add: findMatchingBracket_def)

lemma slice_char_outside:
  assumes "slice tx i (i + length w) = w" and "slice tx j (j + 1) = [c]"
    and "c \<notin> set w" and "i \<le> j"
  shows "i + length w \<le> j"
proof (rule ccontr)
  assume "\<not> i + length w \<le> j"
  then have lt: "j - i < length w" using assms(4) by simp
  from assms(1) have w: "take (length w) (drop i tx) = w" by (simp add: slice_def)
  from assms(2) have "take 1 (drop j tx) = [c]" by (simp add: slice_def)
  then have ne: "drop j tx \<noteq> []" and hd: "hd (drop j tx) = c"
    by (cases "drop j tx"; simp)+
  from ne have jlt: "j < length tx" by simp
  with hd have "tx ! j = c" by (simp add: hd_drop_conv_nth)
  have "w ! (j - i) = take (length w) (drop i tx) ! (j - i)" using w by simp
  also have "\<dots> = tx ! j" using lt assms(4) jlt by simp
  finally have "w ! (j - i) = c" using \<open>tx ! j = c\<close> by simp
  with lt have "c \<in> set w" by (metis nth_mem)
  with assms(3) show False by simp
qed

lemma members_shiftSpec:
  "members (shiftSpec d cs) =
     map (\<lambda>r. r\<lparr>start := start r + d, end' := end' r + d\<rparr>) (members cs)"
  by (induction d cs rule: shiftSpec.induct) (simp_all add: map_concat comp_def cong: map_cong)

lemma matchAll_command:
  assumes "m \<in> set (matchAll [backslash] ws ''{'' eqn)"
    and "\<forall>w \<in> set ws. CHR ''}'' \<notin> set w"
  shows "CHR ''}'' \<notin> set (match0 m)" and "2 \<le> length (match0 m)"
    and "slice eqn (index m) (index m + length (match0 m)) = match0 m"
  using matchAllFrom_sound [of m "[backslash]" ws "''{''" eqn 0] assms
  by (auto simp: matchAll_def backslash_def)

lemma close_after_command:
  assumes "m \<in> set (matchAll [backslash] ws ''{'' eqn)"
    and "\<forall>w \<in> set ws. CHR ''}'' \<notin> set w"
    and "findMatchingBracket eqn (index m) ''{'' ''}'' None = Some j"
  shows "index m + length (match0 m) \<le> j"
proof -
  from findMatchingBracket_Some [OF assms(3)]
  have "index m \<le> j" and "slice eqn j (j + 1) = [CHR ''}'']" by simp_all
  with matchAll_command [OF assms(1,2)] show ?thesis
    by (intro slice_char_outside [where c = "CHR ''}''"]) simp_all
qed

lemma close_after_open:
  assumes "charAt eqn i = ''{''"
    and "findMatchingBracket eqn i ''{'' ''}'' None = Some j"
  shows "i + 1 \<le> j"
proof -
  from findMatchingBracket_Some [OF assms(2)]
  have "i \<le> j" and "slice eqn j (j + 1) = [CHR ''}'']" by simp_all
  with assms(1) have "i \<noteq> j" by (auto simp: charAt_def slice_def)
  with \<open>i \<le> j\<close> show ?thesis by simp
qed

lemma concealFractionLoop_mem:
  "cs \<in> set (concealFractionLoop eqn ms) \<Longrightarrow>
     \<exists>m \<in> set ms. \<exists>numeratorEnd denominatorEnd.
       findMatchingBracket eqn (index m) ''{'' ''}'' None = Some numeratorEnd \<and>
       charAt eqn (numeratorEnd + 1) = ''{'' \<and>
       findMatchingBracket eqn (numeratorEnd + 1) ''{'' ''}'' None = Some denominatorEnd \<and>
       members cs =
         [\<lparr>start = index m, end' = index m + length (match0 m) - 1, replacement = [],
           class' = None, elementType = None\<rparr>,
          \<lparr>start = index m + length (match0 m) - 1, end' = index m + length (match0 m) - 1 + 1,
           replacement = ''('', class' = Some ''cm-bracket'', elementType = None\<rparr>,
          \<lparr>start = numeratorEnd, end' = numeratorEnd + 1,
           replacement = '')'', class' = Some ''cm-bracket'', elementType = None\<rparr>,
          \<lparr>start = numeratorEnd + 1, end' = numeratorEnd + 1,
           replacement = ''/'', class' = Some ''cm-bracket'', elementType = None\<rparr>,
          \<lparr>start = numeratorEnd + 1, end' = numeratorEnd + 1 + 1,
           replacement = ''('', class' = Some ''cm-bracket'', elementType = None\<rparr>,
          \<lparr>start = denominatorEnd, end' = denominatorEnd + 1,
           replacement = '')'', class' = Some ''cm-bracket'', elementType = None\<rparr>]"
  by (induction ms) (auto simp: Let_def split: option.splits if_splits)

lemma concealBraKetLoop_mem:
  "cs \<in> set (concealBraKetLoop eqn ms) \<Longrightarrow>
     \<exists>m \<in> set ms. \<exists>contentEnd left right.
       findMatchingBracket eqn (index m) ''{'' ''}'' None = Some contentEnd \<and>
       left \<noteq> ''/'' \<and> right \<noteq> ''/'' \<and>
       members cs =
         [\<lparr>start = index m, end' = index m + length (match0 m) - 1, replacement = [],
           class' = None, elementType = None\<rparr>,
          \<lparr>start = index m + length (match0 m) - 1, end' = index m + length (match0 m) - 1 + 1,
           replacement = left, class' = Some ''cm-bracket'', elementType = None\<rparr>,
          \<lparr>start = contentEnd, end' = contentEnd + 1,
           replacement = right, class' = Some ''cm-bracket'', elementType = None\<rparr>]"
proof (induction ms)
  case Nil
  then show ?case by simp
next
  case (Cons m ms)
  show ?case
  proof (cases "findMatchingBracket eqn (index m) ''{'' ''}'' None")
    case None
    with Cons show ?thesis by auto
  next
    case (Some contentEnd)
    with Cons.prems consider "cs \<in> set (concealBraKetLoop eqn ms)"
      | "members cs =
         [\<lparr>start = index m, end' = index m + length (match0 m) - 1, replacement = [],
           class' = None, elementType = None\<rparr>,
          \<lparr>start = index m + length (match0 m) - 1, end' = index m + length (match0 m) - 1 + 1,
           replacement = (if match1 m = ''ket'' then vert else langle),
           class' = Some ''cm-bracket'', elementType = None\<rparr>,
          \<lparr>start = contentEnd, end' = contentEnd + 1,
           replacement = (if match1 m = ''bra'' then vert else rangle),
           class' = Some ''cm-bracket'', elementType = None\<rparr>]"
      by (auto simp: Let_def)
    then show ?thesis
    proof cases
      case 1
      with Cons.IH show ?thesis by auto
    next
      case 2
      have "(if match1 m = ''ket'' then vert else langle) \<noteq> ''/''"
        and "(if match1 m = ''bra'' then vert else rangle) \<noteq> ''/''"
        by (simp_all add: vert_def langle_def rangle_def)
      with 2 Some show ?thesis by (intro bexI [of _ m]) auto
    qed
  qed
qed

lemma concealSetLoop_mem:
  "cs \<in> set (concealSetLoop eqn ms) \<Longrightarrow>
     \<exists>m \<in> set ms. \<exists>contentEnd.
       findMatchingBracket eqn (index m) ''{'' ''}'' None = Some contentEnd \<and>
       members cs =
         [\<lparr>start = index m, end' = index m + length (match0 m) - 1, replacement = [],
           class' = None, elementType = None\<rparr>,
          \<lparr>start = index m + length (match0 m) - 1, end' = index m + length (match0 m) - 1 + 1,
           replacement = ''{'', class' = Some ''cm-bracket'', elementType = None\<rparr>,
          \<lparr>start = contentEnd, end' = contentEnd + 1,
           replacement = ''}'', class' = Some ''cm-bracket'', elementType = None\<rparr>]"
  by (induction ms) (auto simp: Let_def split: option.splits if_splits)

lemma group3_wellFormed:
  assumes "2 \<le> L" and "idx + L \<le> contentEnd"
    and "members cs =
         [\<lparr>start = idx, end' = idx + L - 1, replacement = [],
           class' = None, elementType = None\<rparr>,
          \<lparr>start = idx + L - 1, end' = idx + L - 1 + 1,
           replacement = left, class' = Some ''cm-bracket'', elementType = None\<rparr>,
          \<lparr>start = contentEnd, end' = contentEnd + 1,
           replacement = right, class' = Some ''cm-bracket'', elementType = None\<rparr>]"
  shows "wellFormedGroup (members (shiftSpec d cs))"
    and "list_all (\<lambda>r. start r < end' r) (members (shiftSpec d cs))"
  using assms(1,2)
  by (auto simp: members_shiftSpec assms(3) wellFormedGroup_def sortedByStart_def
      noOverlap_def overlaps_def)

lemma group6_wellFormed:
  assumes "2 \<le> L" and "idx + L \<le> numeratorEnd" and "numeratorEnd + 2 \<le> denominatorEnd"
    and "members cs =
         [\<lparr>start = idx, end' = idx + L - 1, replacement = [],
           class' = None, elementType = None\<rparr>,
          \<lparr>start = idx + L - 1, end' = idx + L - 1 + 1,
           replacement = ''('', class' = Some ''cm-bracket'', elementType = None\<rparr>,
          \<lparr>start = numeratorEnd, end' = numeratorEnd + 1,
           replacement = '')'', class' = Some ''cm-bracket'', elementType = None\<rparr>,
          \<lparr>start = numeratorEnd + 1, end' = numeratorEnd + 1,
           replacement = ''/'', class' = Some ''cm-bracket'', elementType = None\<rparr>,
          \<lparr>start = numeratorEnd + 1, end' = numeratorEnd + 1 + 1,
           replacement = ''('', class' = Some ''cm-bracket'', elementType = None\<rparr>,
          \<lparr>start = denominatorEnd, end' = denominatorEnd + 1,
           replacement = '')'', class' = Some ''cm-bracket'', elementType = None\<rparr>]"
  shows "wellFormedGroup (members (shiftSpec d cs))"
    and "list_all (\<lambda>r. start r = end' r \<longrightarrow> replacement r = ''/'') (members (shiftSpec d cs))"
  using assms(1,2,3)
  by (auto simp: members_shiftSpec assms(4) wellFormedGroup_def sortedByStart_def
      noOverlap_def overlaps_def)

lemma strict_imp_slash:
  "list_all (\<lambda>r. start r < end' r) rs \<Longrightarrow>
   list_all (\<lambda>r. start r = end' r \<longrightarrow> replacement r = ''/'') rs"
  by (induction rs) auto

lemma concealBraKet_wellFormed:
  assumes "cs \<in> set (concealBraKet eqn)"
  shows "wellFormedGroup (members (shiftSpec d cs))"
    and "list_all (\<lambda>r. start r = end' r \<longrightarrow> replacement r = ''/'') (members (shiftSpec d cs))"
proof -
  let ?ws = "[''braket'', ''bra'', ''ket'']"
  have ws: "\<forall>w \<in> set ?ws. CHR ''}'' \<notin> set w" by simp
  from assms obtain m contentEnd left right where
    m: "m \<in> set (matchAll [backslash] ?ws ''{'' eqn)" and
    f: "findMatchingBracket eqn (index m) ''{'' ''}'' None = Some contentEnd" and
    mem: "members cs =
         [\<lparr>start = index m, end' = index m + length (match0 m) - 1, replacement = [],
           class' = None, elementType = None\<rparr>,
          \<lparr>start = index m + length (match0 m) - 1, end' = index m + length (match0 m) - 1 + 1,
           replacement = left, class' = Some ''cm-bracket'', elementType = None\<rparr>,
          \<lparr>start = contentEnd, end' = contentEnd + 1,
           replacement = right, class' = Some ''cm-bracket'', elementType = None\<rparr>]"
    unfolding concealBraKet_def by (blast dest: concealBraKetLoop_mem)
  note g = group3_wellFormed [OF matchAll_command(2) [OF m ws] close_after_command [OF m ws f] mem]
  show "wellFormedGroup (members (shiftSpec d cs))" by (rule g(1))
  show "list_all (\<lambda>r. start r = end' r \<longrightarrow> replacement r = ''/'') (members (shiftSpec d cs))"
    by (rule strict_imp_slash, rule g(2))
qed

lemma concealSet_wellFormed:
  assumes "cs \<in> set (concealSet eqn)"
  shows "wellFormedGroup (members (shiftSpec d cs))"
    and "list_all (\<lambda>r. start r = end' r \<longrightarrow> replacement r = ''/'') (members (shiftSpec d cs))"
proof -
  let ?ws = "[''set'']"
  have ws: "\<forall>w \<in> set ?ws. CHR ''}'' \<notin> set w" by simp
  from assms obtain m contentEnd where
    m: "m \<in> set (matchAll [backslash] ?ws ''{'' eqn)" and
    f: "findMatchingBracket eqn (index m) ''{'' ''}'' None = Some contentEnd" and
    mem: "members cs =
         [\<lparr>start = index m, end' = index m + length (match0 m) - 1, replacement = [],
           class' = None, elementType = None\<rparr>,
          \<lparr>start = index m + length (match0 m) - 1, end' = index m + length (match0 m) - 1 + 1,
           replacement = ''{'', class' = Some ''cm-bracket'', elementType = None\<rparr>,
          \<lparr>start = contentEnd, end' = contentEnd + 1,
           replacement = ''}'', class' = Some ''cm-bracket'', elementType = None\<rparr>]"
    unfolding concealSet_def by (blast dest: concealSetLoop_mem)
  note g = group3_wellFormed [OF matchAll_command(2) [OF m ws] close_after_command [OF m ws f] mem]
  show "wellFormedGroup (members (shiftSpec d cs))" by (rule g(1))
  show "list_all (\<lambda>r. start r = end' r \<longrightarrow> replacement r = ''/'') (members (shiftSpec d cs))"
    by (rule strict_imp_slash, rule g(2))
qed

lemma concealFraction_wellFormed:
  assumes "cs \<in> set (concealFraction eqn)"
  shows "wellFormedGroup (members (shiftSpec d cs))"
    and "list_all (\<lambda>r. start r = end' r \<longrightarrow> replacement r = ''/'') (members (shiftSpec d cs))"
proof -
  let ?ws = "[''frac'']"
  have ws: "\<forall>w \<in> set ?ws. CHR ''}'' \<notin> set w" by simp
  from assms obtain m numeratorEnd denominatorEnd where
    m: "m \<in> set (matchAll [backslash] ?ws ''{'' eqn)" and
    f1: "findMatchingBracket eqn (index m) ''{'' ''}'' None = Some numeratorEnd" and
    c: "charAt eqn (numeratorEnd + 1) = ''{''" and
    f2: "findMatchingBracket eqn (numeratorEnd + 1) ''{'' ''}'' None = Some denominatorEnd" and
    mem: "members cs =
         [\<lparr>start = index m, end' = index m + length (match0 m) - 1, replacement = [],
           class' = None, elementType = None\<rparr>,
          \<lparr>start = index m + length (match0 m) - 1, end' = index m + length (match0 m) - 1 + 1,
           replacement = ''('', class' = Some ''cm-bracket'', elementType = None\<rparr>,
          \<lparr>start = numeratorEnd, end' = numeratorEnd + 1,
           replacement = '')'', class' = Some ''cm-bracket'', elementType = None\<rparr>,
          \<lparr>start = numeratorEnd + 1, end' = numeratorEnd + 1,
           replacement = ''/'', class' = Some ''cm-bracket'', elementType = None\<rparr>,
          \<lparr>start = numeratorEnd + 1, end' = numeratorEnd + 1 + 1,
           replacement = ''('', class' = Some ''cm-bracket'', elementType = None\<rparr>,
          \<lparr>start = denominatorEnd, end' = denominatorEnd + 1,
           replacement = '')'', class' = Some ''cm-bracket'', elementType = None\<rparr>]"
    unfolding concealFraction_def by (blast dest: concealFractionLoop_mem)
  from close_after_open [OF c f2] have d2: "numeratorEnd + 2 \<le> denominatorEnd" by simp
  note g = group6_wellFormed [OF matchAll_command(2) [OF m ws] close_after_command [OF m ws f1] d2 mem]
  show "wellFormedGroup (members (shiftSpec d cs))" by (rule g(1))
  show "list_all (\<lambda>r. start r = end' r \<longrightarrow> replacement r = ''/'') (members (shiftSpec d cs))"
    by (rule g(2))
qed

lemma endOfMatch_ge: "e \<le> getEndIncludingLimits eqn e"
  by (simp add: getEndIncludingLimits_def)

lemma concealSymbols_single:
  "cs \<in> set (concealSymbols eqn matches symbolMap className allow) \<Longrightarrow>
     \<exists>r. cs = Single r \<and> start r \<le> end' r"
proof (induction matches)
  case Nil
  then show ?case by simp
next
  case (Cons m matches)
  have "index m \<le> getEndIncludingLimits eqn (index m + length (match0 m))"
    using endOfMatch_ge [of "index m + length (match0 m)" eqn] by simp
  with Cons show ?case by (auto simp: Let_def split: if_splits)
qed

lemma concealOperators_single:
  "cs \<in> set (concealOperators eqn matches) \<Longrightarrow> \<exists>r. cs = Single r \<and> start r \<le> end' r"
proof (induction matches)
  case Nil
  then show ?case by simp
next
  case (Cons m matches)
  have "index m \<le> getEndIncludingLimits eqn (index m + length (match1 m))"
    using endOfMatch_ge [of "index m + length (match1 m)" eqn] by simp
  with Cons show ?case by (auto simp: Let_def split: if_splits)
qed

lemma single_wellFormed:
  "start r \<le> end' r \<Longrightarrow> wellFormedGroup (members (shiftSpec d (Single r)))"
  by (simp add: wellFormedGroup_def sortedByStart_def noOverlap_def)

lemma concealFractionLoop_append:
  "concealFractionLoop eqn (xs @ ys) = concealFractionLoop eqn xs @ concealFractionLoop eqn ys"
  by (induction xs) (simp_all add: Let_def split: option.splits)






lemma followed_by_iff:
  "(take (length w) (drop e eqn) = w) = (\<exists>rest. drop e eqn = w @ rest)"
proof
  assume "take (length w) (drop e eqn) = w"
  then have "drop e eqn = w @ drop (length w) (drop e eqn)"
    by (metis append_take_drop_id)
  then show "\<exists>rest. drop e eqn = w @ rest" ..
next
  assume "\<exists>rest. drop e eqn = w @ rest"
  then show "take (length w) (drop e eqn) = w" by auto
qed

lemma getEndIncludingLimits_char:
  "getEndIncludingLimits eqn e =
     (if (\<exists>rest. drop e eqn = LIMITS @ rest) then e + length LIMITS else e)"
  by (simp add: getEndIncludingLimits_def substring_def followed_by_iff)

lemma concealOperators_members:
  "concat (map members (concealOperators eqn matches)) =
     map (\<lambda>m. \<lparr>start = index m,
               end' = getEndIncludingLimits eqn (index m + length (match1 m)),
               replacement = match2 m, class' = Some ''cm-concealed-mathrm cm-variable-2'',
               elementType = None\<rparr>) matches"
  by (induction matches) (simp_all add: Let_def)

lemma concealSymbols_members:
  "concat (map members (concealSymbols eqn matches symbolMap className allow)) =
     map (\<lambda>m. \<lparr>start = index m,
               end' = getEndIncludingLimits eqn (index m + length (match0 m)),
               replacement = symbolMap (match1 m), class' = className, elementType = None\<rparr>)
       (filter (\<lambda>m. allow \<or> \<not> matchesLetter (charAt eqn (index m + length (match0 m)))) matches)"
  by (cases allow; induction matches) (simp_all add: Let_def)

text \<open>
  C6. On the equation text \<open>frac{a}{b}\<close> after a backslash the fraction matcher emits exactly one
  ConcealSpec. Its members hide the command from 0 to 5, replace the braces of the
  numerator at 5 and 7 by \<open>(\<close> and \<open>)\<close>, insert \<open>/\<close> at 8 with start equal to end, and
  replace the braces of the denominator at 8 and 10 by \<open>(\<close> and \<open>)\<close>; the painted text
  reads \<open>(a)/(b)\<close>. For every text and every match, when the closing brace of the
  numerator is found and the character after it is not an opening brace, no ConcealSpec
  is emitted for the match; the text with a space between the two groups is such a text.
\<close>

theorem concealFraction_frac_a_b:
  "concealFraction (backslash # ''frac{a}{b}'') =
     [Group [
        Single \<lparr>start = 0, end' = 5, replacement = [], class' = None, elementType = None\<rparr>,
        Single \<lparr>start = 5, end' = 6, replacement = ''('', class' = Some ''cm-bracket'',
                 elementType = None\<rparr>,
        Single \<lparr>start = 7, end' = 8, replacement = '')'', class' = Some ''cm-bracket'',
                 elementType = None\<rparr>,
        Single \<lparr>start = 8, end' = 8, replacement = ''/'', class' = Some ''cm-bracket'',
                 elementType = None\<rparr>,
        Single \<lparr>start = 8, end' = 9, replacement = ''('', class' = Some ''cm-bracket'',
                 elementType = None\<rparr>,
        Single \<lparr>start = 10, end' = 11, replacement = '')'', class' = Some ''cm-bracket'',
                 elementType = None\<rparr>]] \<and>
   map (paint (backslash # ''frac{a}{b}'')) (concealFraction (backslash # ''frac{a}{b}''))
     = [''(a)/(b)''] \<and>
   (findMatchingBracket eqn (index m) ''{'' ''}'' None = Some numeratorEnd \<and>
    charAt eqn (numeratorEnd + 1) \<noteq> ''{'' \<longrightarrow>
      concealFractionLoop eqn (before @ m # after) =
        concealFractionLoop eqn before @ concealFractionLoop eqn after) \<and>
   concealFraction (backslash # ''frac{a} {b}'') = []"
proof -
  have 1: "concealFraction (backslash # ''frac{a}{b}'') =
     [Group [
        Single \<lparr>start = 0, end' = 5, replacement = [], class' = None, elementType = None\<rparr>,
        Single \<lparr>start = 5, end' = 6, replacement = ''('', class' = Some ''cm-bracket'',
                 elementType = None\<rparr>,
        Single \<lparr>start = 7, end' = 8, replacement = '')'', class' = Some ''cm-bracket'',
                 elementType = None\<rparr>,
        Single \<lparr>start = 8, end' = 8, replacement = ''/'', class' = Some ''cm-bracket'',
                 elementType = None\<rparr>,
        Single \<lparr>start = 8, end' = 9, replacement = ''('', class' = Some ''cm-bracket'',
                 elementType = None\<rparr>,
        Single \<lparr>start = 10, end' = 11, replacement = '')'', class' = Some ''cm-bracket'',
                 elementType = None\<rparr>]]"
    by code_simp
  have 2: "map (paint (backslash # ''frac{a}{b}'')) (concealFraction (backslash # ''frac{a}{b}''))
     = [''(a)/(b)'']"
    by code_simp
  have 3: "findMatchingBracket eqn (index m) ''{'' ''}'' None = Some numeratorEnd \<and>
    charAt eqn (numeratorEnd + 1) \<noteq> ''{'' \<longrightarrow>
      concealFractionLoop eqn (before @ m # after) =
        concealFractionLoop eqn before @ concealFractionLoop eqn after"
    by (simp add: concealFractionLoop_append [of eqn before "m # after"])
  have 4: "concealFraction (backslash # ''frac{a} {b}'') = []"
    by code_simp
  show ?thesis
    by (rule conjI [OF 1 conjI [OF 2 conjI [OF 3 4]]])
qed

theorem concealFraction_frac_a_b_witness:
  "concealFractionLoop (backslash # ''frac{a} {b}'')
     ([] @ \<lparr>index = 0, match0 = backslash # ''frac{'', match1 = ''frac'', match2 = []\<rparr> # []) = []"
proof -
  let ?eqn = "backslash # ''frac{a} {b}''"
  let ?m = "\<lparr>index = 0, match0 = backslash # ''frac{'', match1 = ''frac'', match2 = []\<rparr>"
  have h: "findMatchingBracket ?eqn (index ?m) ''{'' ''}'' None = Some 7 \<and>
           charAt ?eqn (7 + 1) \<noteq> ''{''"
    by code_simp
  from concealFraction_frac_a_b [of ?eqn ?m 7 "[]" "[]"] h
  have "concealFractionLoop ?eqn ([] @ ?m # []) =
          concealFractionLoop ?eqn [] @ concealFractionLoop ?eqn []"
    by blast
  then show ?thesis by simp
qed

lemma concealModifier_single:
  "cs \<in> set (concealModifier matches combiningCharacter) \<Longrightarrow>
     \<exists>r. cs = Single r \<and> start r \<le> end' r"
  by (induction matches) (auto simp: Let_def)

lemma concealSupSub_single:
  "cs \<in> set (concealSupSub matches superscript rewrite) \<Longrightarrow>
     \<exists>r. cs = Single r \<and> start r \<le> end' r"
  by (induction matches) (auto simp: Let_def)

lemma concealModified_A_to_Z_0_to_9_single:
  "cs \<in> set (concealModified_A_to_Z_0_to_9 eqn matches mathBBsymbolMap) \<Longrightarrow>
     \<exists>r. cs = Single r \<and> start r \<le> end' r"
  by (induction matches) (auto simp: Let_def split: if_splits)

lemma concealModifiedGreekLetters_single:
  "cs \<in> set (concealModifiedGreekLetters matches greekSymbolMap) \<Longrightarrow>
     \<exists>r. cs = Single r \<and> start r \<le> end' r"
  by (induction matches) (auto simp: Let_def split: if_splits)

lemma concealText_single:
  "cs \<in> set (concealText matches) \<Longrightarrow> \<exists>r. cs = Single r \<and> start r \<le> end' r"
  by (induction matches) (auto simp: Let_def)

lemma concealAtoZ_single:
  "cs \<in> set (concealAtoZ matches symbolMap className) \<Longrightarrow>
     \<exists>r. cs = Single r \<and> start r \<le> end' r"
  by (induction matches) (auto simp: Let_def)

lemmas matcher_single =
  concealSymbols_single concealOperators_single concealModifier_single concealSupSub_single
  concealModified_A_to_Z_0_to_9_single concealModifiedGreekLetters_single concealText_single
  concealAtoZ_single

lemma concealEquation_mem:
  assumes "cs \<in> set (concealEquation maps ms eqn boundsStart)"
  shows "\<exists>c. cs = shiftSpec boundsStart c \<and>
           (c \<in> set (concealBraKet eqn) \<union> set (concealSet eqn) \<union> set (concealFraction eqn) \<or>
            (\<exists>r. c = Single r \<and> start r \<le> end' r))"
proof -
  from assms obtain c where c: "cs = shiftSpec boundsStart c" and
    "c \<in> set (concealSymbols eqn (superMatches ms) (map_super maps) None True)
     \<or> c \<in> set (concealSymbols eqn (subMatches ms) (map_sub maps) None True)
     \<or> c \<in> set (concealSymbols eqn (fractionMatches ms) (fractions maps) None True)
     \<or> c \<in> set (concealSymbols eqn (symbolMatches ms) (all_symbols maps) None False)
     \<or> c \<in> set (concealSupSub (supMatches ms) True (replaceSymbols ms))
     \<or> c \<in> set (concealSupSub (subscriptMatches ms) False (replaceSymbols ms))
     \<or> c \<in> set (concealModifier (hatMatches ms) [CHR 0xCC, CHR 0x82])
     \<or> c \<in> set (concealModifier (dotMatches ms) [CHR 0xCC, CHR 0x87])
     \<or> c \<in> set (concealModifier (ddotMatches ms) [CHR 0xCC, CHR 0x88])
     \<or> c \<in> set (concealModifier (overlineMatches ms) [CHR 0xCC, CHR 0x84])
     \<or> c \<in> set (concealModifier (barMatches ms) [CHR 0xCC, CHR 0x84])
     \<or> c \<in> set (concealModifier (tildeMatches ms) [CHR 0xCC, CHR 0x83])
     \<or> c \<in> set (concealModifier (vecMatches ms) [CHR 0xE2, CHR 0x83, CHR 0x97])
     \<or> c \<in> set (concealSymbols eqn (bracketMatches ms) (brackets maps) (Some ''cm-bracket'') True)
     \<or> c \<in> set (concealAtoZ (mathcalMatches ms) (mathscrcal maps) None)
     \<or> c \<in> set (concealModifiedGreekLetters (modifiedGreekMatches ms) (greek maps))
     \<or> c \<in> set (concealModified_A_to_Z_0_to_9 eqn (modifiedMatches ms) (mathbb maps))
     \<or> c \<in> set (concealText (textMatches ms))
     \<or> c \<in> set (concealBraKet eqn)
     \<or> c \<in> set (concealSet eqn)
     \<or> c \<in> set (concealFraction eqn)
     \<or> c \<in> set (concealOperators eqn (operatorMatches ms))"
    unfolding concealEquation_def Let_def set_map set_append image_iff Un_iff by blast
  then have "c \<in> set (concealBraKet eqn) \<union> set (concealSet eqn) \<union> set (concealFraction eqn) \<or>
            (\<exists>r. c = Single r \<and> start r \<le> end' r)"
    unfolding Un_iff by (elim disjE) (blast dest: matcher_single)+
  with c show ?thesis by blast
qed

text \<open>
  C7. For every equation text, every ConcealSpec in the scan of the equation has its
  members sorted by start, no two of them overlapping, and each with its start at most
  its end; this is for positions of the document, after the start of the equation has
  been added to every offset. Groups come from the three grouped matchers (bra-ket, set,
  fraction) only, and in these start equals end only in the inserted \<open>/\<close> of a
  fraction. The matches of the table-driven expressions are those of the host's engine,
  and any lists of matches are allowed here.
\<close>

theorem scanner_members_sorted_disjoint:
  "(cs \<in> set (concealEquation maps ms eqn boundsStart) \<longrightarrow>
      sortedByStart (members cs) \<and> noOverlap (members cs) \<and>
      list_all (\<lambda>r. start r \<le> end' r) (members cs)) \<and>
   (c \<in> set (concealBraKet eqn) \<union> set (concealSet eqn) \<union> set (concealFraction eqn) \<longrightarrow>
      sortedByStart (members (shiftSpec boundsStart c)) \<and>
      noOverlap (members (shiftSpec boundsStart c)) \<and>
      list_all (\<lambda>r. start r \<le> end' r) (members (shiftSpec boundsStart c)) \<and>
      list_all (\<lambda>r. start r = end' r \<longrightarrow> replacement r = ''/'')
        (members (shiftSpec boundsStart c)))"
proof -
  have grouped: "wellFormedGroup (members (shiftSpec boundsStart x)) \<and>
      list_all (\<lambda>r. start r = end' r \<longrightarrow> replacement r = ''/'')
        (members (shiftSpec boundsStart x))"
    if "x \<in> set (concealBraKet eqn) \<union> set (concealSet eqn) \<union> set (concealFraction eqn)" for x
    using that concealBraKet_wellFormed [of x eqn boundsStart]
      concealSet_wellFormed [of x eqn boundsStart]
      concealFraction_wellFormed [of x eqn boundsStart]
    by blast
  have 1: "cs \<in> set (concealEquation maps ms eqn boundsStart) \<longrightarrow>
      sortedByStart (members cs) \<and> noOverlap (members cs) \<and>
      list_all (\<lambda>r. start r \<le> end' r) (members cs)"
  proof
    assume "cs \<in> set (concealEquation maps ms eqn boundsStart)"
    from concealEquation_mem [OF this] obtain x where x: "cs = shiftSpec boundsStart x"
      and "x \<in> set (concealBraKet eqn) \<union> set (concealSet eqn) \<union> set (concealFraction eqn) \<or>
            (\<exists>r. x = Single r \<and> start r \<le> end' r)"
      by blast
    then have "wellFormedGroup (members (shiftSpec boundsStart x))"
      using grouped [of x] single_wellFormed [of _ boundsStart] by blast
    with x show "sortedByStart (members cs) \<and> noOverlap (members cs) \<and>
      list_all (\<lambda>r. start r \<le> end' r) (members cs)"
      by (simp add: wellFormedGroup_def)
  qed
  have 2: "c \<in> set (concealBraKet eqn) \<union> set (concealSet eqn) \<union> set (concealFraction eqn) \<longrightarrow>
      sortedByStart (members (shiftSpec boundsStart c)) \<and>
      noOverlap (members (shiftSpec boundsStart c)) \<and>
      list_all (\<lambda>r. start r \<le> end' r) (members (shiftSpec boundsStart c)) \<and>
      list_all (\<lambda>r. start r = end' r \<longrightarrow> replacement r = ''/'')
        (members (shiftSpec boundsStart c))"
    using grouped [of c] by (simp add: wellFormedGroup_def)
  show ?thesis
    by (rule conjI [OF 1 2])
qed

theorem scanner_members_sorted_disjoint_witness:
  "sortedByStart (members (hd (concealEquation
      \<lparr>map_super = id, map_sub = id, fractions = id, all_symbols = id, brackets = id,
       mathscrcal = id, greek = id, mathbb = id\<rparr>
      \<lparr>superMatches = [], subMatches = [], fractionMatches = [], symbolMatches = [],
       supMatches = [], subscriptMatches = [], replaceSymbols = id, hatMatches = [],
       dotMatches = [], ddotMatches = [], overlineMatches = [], barMatches = [],
       tildeMatches = [], vecMatches = [], bracketMatches = [], mathcalMatches = [],
       modifiedGreekMatches = [], modifiedMatches = [], textMatches = [],
       operatorMatches = []\<rparr>
      (backslash # ''frac{a}{b}'') 3))) \<and>
   noOverlap (members (shiftSpec 3 (hd (concealFraction (backslash # ''frac{a}{b}'')))))"
proof -
  let ?eqn = "backslash # ''frac{a}{b}''"
  let ?maps = "\<lparr>map_super = id, map_sub = id, fractions = id, all_symbols = id, brackets = id,
       mathscrcal = id, greek = id, mathbb = id\<rparr>"
  let ?ms = "\<lparr>superMatches = [], subMatches = [], fractionMatches = [], symbolMatches = [],
       supMatches = [], subscriptMatches = [], replaceSymbols = id, hatMatches = [],
       dotMatches = [], ddotMatches = [], overlineMatches = [], barMatches = [],
       tildeMatches = [], vecMatches = [], bracketMatches = [], mathcalMatches = [],
       modifiedGreekMatches = [], modifiedMatches = [], textMatches = [],
       operatorMatches = []\<rparr>"
  have h1: "hd (concealEquation ?maps ?ms ?eqn 3) \<in> set (concealEquation ?maps ?ms ?eqn 3)"
    by code_simp
  have h2: "hd (concealFraction ?eqn)
           \<in> set (concealBraKet ?eqn) \<union> set (concealSet ?eqn) \<union> set (concealFraction ?eqn)"
    by code_simp
  from scanner_members_sorted_disjoint
    [where cs = "hd (concealEquation ?maps ?ms ?eqn 3)" and maps = ?maps and ms = ?ms
       and c = "hd (concealFraction ?eqn)" and eqn = ?eqn and boundsStart = 3] h1 h2
  show ?thesis by blast
qed



text \<open>
  C9. \<open>getEndIncludingLimits\<close> returns the end of a match extended by the length of
  the word \<open>limits\<close> with its backslash, which is 7, when the equation text from that end
  on begins with it, and the end unchanged otherwise. The Replacement that \<open>concealOperators\<close>
  emits for a match starts at the index of the match and ends at this value for the end
  of the operator \<open>match[1]\<close>; the Replacement that \<open>concealSymbols\<close> emits for a match
  it does not skip starts at the index of the match and ends at this value for the end
  of \<open>match[0]\<close>.
\<close>

theorem limits_extends_end:
  "getEndIncludingLimits eqn e =
     (if (\<exists>rest. drop e eqn = (backslash # ''limits'') @ rest) then e + 7 else e) \<and>
   map (\<lambda>r. (start r, end' r)) (concat (map members (concealOperators eqn matches))) =
     map (\<lambda>m. (index m, getEndIncludingLimits eqn (index m + length (match1 m)))) matches \<and>
   map (\<lambda>r. (start r, end' r))
       (concat (map members (concealSymbols eqn matches symbolMap className allowSucceedingLetters))) =
     map (\<lambda>m. (index m, getEndIncludingLimits eqn (index m + length (match0 m))))
       (filter (\<lambda>m. allowSucceedingLetters \<or>
                     \<not> matchesLetter (charAt eqn (index m + length (match0 m)))) matches)"
proof -
  have 1: "getEndIncludingLimits eqn e =
     (if (\<exists>rest. drop e eqn = (backslash # ''limits'') @ rest) then e + 7 else e)"
    using getEndIncludingLimits_char [of eqn e] by (simp add: LIMITS_def)
  have 2: "map (\<lambda>r. (start r, end' r)) (concat (map members (concealOperators eqn matches))) =
     map (\<lambda>m. (index m, getEndIncludingLimits eqn (index m + length (match1 m)))) matches"
    by (simp add: concealOperators_members comp_def)
  have 3: "map (\<lambda>r. (start r, end' r))
       (concat (map members (concealSymbols eqn matches symbolMap className allowSucceedingLetters))) =
     map (\<lambda>m. (index m, getEndIncludingLimits eqn (index m + length (match0 m))))
       (filter (\<lambda>m. allowSucceedingLetters \<or>
                     \<not> matchesLetter (charAt eqn (index m + length (match0 m)))) matches)"
    by (simp add: concealSymbols_members comp_def)
  show ?thesis
    by (rule conjI [OF 1 conjI [OF 2 3]])
qed

theorem limits_extends_end_witness:
  "map (\<lambda>r. (start r, end' r))
     (concat (map members (concealOperators
        (''x'' @ backslash # ''sum'' @ backslash # ''limits_i '' @ backslash # ''sum_j'')
        [\<lparr>index = 1, match0 = backslash # ''sum'' @ [backslash], match1 = backslash # ''sum'',
          match2 = ''sum''\<rparr>,
         \<lparr>index = 15, match0 = backslash # ''sum_'', match1 = backslash # ''sum'',
          match2 = ''sum''\<rparr>])))
   = [(1, 12), (15, 19)]"
proof -
  let ?eqn = "''x'' @ backslash # ''sum'' @ backslash # ''limits_i '' @ backslash # ''sum_j''"
  let ?ms = "[\<lparr>index = 1, match0 = backslash # ''sum'' @ [backslash], match1 = backslash # ''sum'',
          match2 = ''sum''\<rparr>,
         \<lparr>index = 15, match0 = backslash # ''sum_'', match1 = backslash # ''sum'',
          match2 = ''sum''\<rparr>]"
  note t = limits_extends_end [of ?eqn 5 ?ms, THEN conjunct2, THEN conjunct1]
  have "map (\<lambda>m. (index m, getEndIncludingLimits ?eqn (index m + length (match1 m)))) ?ms
          = [(1, 12), (15, 19)]"
    by code_simp
  with t show ?thesis by (rule trans)
qed

section \<open>The delayed reveal across the engine's own dispatch\<close>

text \<open>
  C4. The claim has every reconciliation cancel the pending timer, so that a timer never
  applies after a later reconciliation; the comment in the listener says the same. The
  listener cancels the timer recorded in the start state of the update. On the update
  that its own dispatch causes, the start state is the state before that dispatch, which
  does not record the timer the dispatch has just installed; when the host sets
  \<open>viewportChanged\<close> on that update, the listener reconciles again and leaves that timer
  pending. The run below has two Replacements, from 0 to 5 and from 10 to 40. The cursor
  is at 20, inside the second; it moves to 5, the end of the first (timer 0 is installed
  and the second Replacement is concealed); the update caused by that dispatch has
  \<open>viewportChanged\<close> set and the start state of before the dispatch (timer 1 is
  installed, timer 0 is still pending); the cursor moves to 50, away from both (timer 1
  is cancelled, timer 0 is not). Timer 0 then fires and installs its own candidates,
  with the first Replacement revealed and classified \<open>edge\<close>, although the cursor is
  away. Each start state in the run is the value of the state field at that moment.
\<close>

theorem stale_timer_after_flagged_dispatch:
  "(let a = \<lparr>start = 0, end' = 5, replacement = ''a'', class' = None, elementType = None\<rparr>;
        b = \<lparr>start = 10, end' = 40, replacement = ''b'', class' = None, elementType = None\<rparr>;
        created = \<lparr>concealments = [], revealTimeout = None\<rparr>;
        inside_b =
          \<lparr>concealments = [\<lparr>spec = Single a, cursorPosType = Apart, enable = True\<rparr>,
                           \<lparr>spec = Single b, cursorPosType = Within, enable = False\<rparr>],
           revealTimeout = None\<rparr>;
        at_edge = [\<lparr>spec = Single a, cursorPosType = Edge, enable = True\<rparr>,
                   \<lparr>spec = Single b, cursorPosType = Apart, enable = True\<rparr>];
        update = (\<lambda>selSet vpChanged startField cursor.
          Update \<lparr>docChanged = False, viewportChanged = vpChanged, selectionSet = selSet,
                  startState_field = startField,
                  changes_mapPos = (\<lambda>pos assoc. pos),
                  state_selection = \<lparr>ranges = [\<lparr>from' = cursor, to = cursor\<rparr>]\<rparr>,
                  view_mousedown = False,
                  view_conceal = [Single a, Single b]\<rparr>);
        cursor_20 = update True False created 20;
        cursor_5 = update True False inside_b 5;
        own_dispatch = update False True inside_b 5;
        cursor_50 = update True False \<lparr>concealments = at_edge, revealTimeout = Some 1\<rparr> 50
    in stateField (run create [cursor_20]) = inside_b \<and>
       stateField (run create [cursor_20, cursor_5])
         = \<lparr>concealments = at_edge, revealTimeout = Some 0\<rparr> \<and>
       stateField (run create [cursor_20, cursor_5, own_dispatch])
         = \<lparr>concealments = at_edge, revealTimeout = Some 1\<rparr> \<and>
       timers (run create [cursor_20, cursor_5, own_dispatch]) 0 \<noteq> None \<and>
       timers (run create [cursor_20, cursor_5, own_dispatch]) 1 \<noteq> None \<and>
       stateField (run create [cursor_20, cursor_5, own_dispatch, cursor_50])
         = \<lparr>concealments = [\<lparr>spec = Single a, cursorPosType = Apart, enable = True\<rparr>,
                            \<lparr>spec = Single b, cursorPosType = Apart, enable = True\<rparr>],
            revealTimeout = None\<rparr> \<and>
       timers (run create [cursor_20, cursor_5, own_dispatch, cursor_50]) 0 \<noteq> None \<and>
       stateField (run create [cursor_20, cursor_5, own_dispatch, cursor_50, Timeout 0])
         = \<lparr>concealments = [\<lparr>spec = Single a, cursorPosType = Edge, enable = False\<rparr>,
                            \<lparr>spec = Single b, cursorPosType = Apart, enable = True\<rparr>],
            revealTimeout = None\<rparr>)"
  unfolding Let_def
  by (simp add: run_def create_def updateListener_def timerFires_def revealDelayed_def
      reconcileOne_def clearTimeout_def determineCursorPosType_def classifyStep_def
      touchesBoundary_def overlapRangeFrom_def overlapRangeTo_def determineAction_def Let_def)

end
